theory Spec2Isabelle
  imports Main "HOL-Library.AList" "HOL-Library.Sublist"
begin

section \<open>JavaScript values and objects\<close>

text \<open>
  The plugin stores plain JavaScript objects: the component table
  \<^verbatim>\<open>config.vueComponents\<close> (\<^verbatim>\<open>{vuePath: info}\<close>), each component's
  \<^verbatim>\<open>info\<close> object, the \<^verbatim>\<open>entries\<close> object and the configuration handed to
  the backend template. An object with string keys is an association list in insertion
  order, which is the order \<^verbatim>\<open>for (const k in obj)\<close> visits them: \<^verbatim>\<open>obj[k] = v\<close>
  is \<^const>\<open>AList.update\<close> (overwrite in place, or append), \<^verbatim>\<open>delete obj[k]\<close> is
  \<^const>\<open>AList.delete\<close>, \<^verbatim>\<open>obj[k]\<close> is \<open>js_get\<close> and \<^verbatim>\<open>k in obj\<close> is
  membership among the keys.
\<close>

datatype jsval =
    JUndefined
  | JNull
  | JBool bool
  | JNumber int
  | JString string
  | JArray "jsval list"
  | JObject "(string \<times> jsval) list"

type_synonym jsobject = "(string \<times> jsval) list"

definition js_get :: "jsobject \<Rightarrow> string \<Rightarrow> jsval" where
  "js_get obj k = (case map_of obj k of None \<Rightarrow> JUndefined | Some v \<Rightarrow> v)"

fun truthy :: "jsval \<Rightarrow> bool" where
  "truthy JUndefined = False"
| "truthy JNull = False"
| "truthy (JBool b) = b"
| "truthy (JNumber n) = (n \<noteq> 0)"
| "truthy (JString s) = (s \<noteq> [])"
| "truthy (JArray xs) = True"
| "truthy (JObject kvs) = True"

type_synonym component_table = "(string \<times> jsobject) list"

section \<open>String operations\<close>

text \<open>
  \<^verbatim>\<open>content.indexOf(pat)\<close>: the first position at which \<open>pat\<close> occurs, \<open>None\<close> for
  JavaScript's \<open>-1\<close>.
\<close>

primrec indexOf :: "string \<Rightarrow> string \<Rightarrow> nat option" where
  "indexOf [] pat = (if pat = [] then Some 0 else None)"
| "indexOf (c # cs) pat =
     (if prefix pat (c # cs) then Some 0 else map_option Suc (indexOf cs pat))"

text \<open>
  \<^verbatim>\<open>s.substring(a, b)\<close>: the arguments are swapped when \<open>a > b\<close> and clamped to the
  length of the string.
\<close>

definition substring :: "string \<Rightarrow> nat \<Rightarrow> nat \<Rightarrow> string" where
  "substring s a b = take (max a b - min a b) (drop (min a b) s)"

definition startsWith :: "string \<Rightarrow> string \<Rightarrow> bool" where
  "startsWith s pat = prefix pat s"

section \<open>The syntax tree returned by the parser\<close>

text \<open>
  The part of an ESTree module that \<^verbatim>\<open>generateEntries\<close> inspects. A node's \<^verbatim>\<open>type\<close>
  is the constructor. An element of an array literal is \<open>None\<close> for a hole
  (\<^verbatim>\<open>[, 'a']\<close>), which the parser reports as \<^verbatim>\<open>null\<close>.
\<close>

datatype literal = StringLiteral string | OtherLiteral

datatype property_key = Identifier string | OtherKey

datatype expr =
    ObjectExpression "(property_key \<times> expr) list"
  | ArrayExpression "expr option list"
  | Literal literal
  | OtherExpression

datatype statement = ExportDefaultDeclaration expr | OtherStatement

section \<open>Configuration, errors and external collaborators\<close>

record config =
  projectDir :: string
  tempDir :: string
  appName :: string
  type :: string
  env :: string
  caseSensitive :: bool
  backendEntry :: "string option"
  entry :: "string option"
  custom :: jsobject
  host :: jsval
  port :: jsval
  backendPort :: jsval

text \<open>
  \<^verbatim>\<open>this.error(filePath, message)\<close> pushes an \<^verbatim>\<open>Error\<close> whose \<^verbatim>\<open>file\<close> is the path
  relative to the project directory; the route compiler pushes
  \<^verbatim>\<open>new Error(`${vuePath} page path error: ${e.message}`)\<close>, which has no
  \<^verbatim>\<open>file\<close>.
\<close>

datatype gen_error =
    FileError string string
  | PagePathError string string

fun error_file :: "gen_error \<Rightarrow> string option" where
  "error_file (FileError f m) = Some f"
| "error_file (PagePathError p m) = None"

fun error_message :: "gen_error \<Rightarrow> string" where
  "error_message (FileError f m) = m"
| "error_message (PagePathError p m) = p @ '' page path error: '' @ m"

record backend_data =
  bd_env :: string
  bd_appName :: string
  bd_pagePaths :: "string list"
  bd_entry :: jsval
  bd_conf :: jsobject

record frontend_data =
  fd_vueComponents :: component_table
  fd_entry :: jsval
  fd_caseSensitive :: bool

datatype template_call =
    BackendTemplate backend_data
  | FrontendTemplate frontend_data

text \<open>
  The libraries the plugin calls: \<^verbatim>\<open>espree.parse\<close> (\<open>None\<close> when it throws),
  \<^verbatim>\<open>pathToRegexp(path, [], {sensitive}).toString()\<close> (\<open>Inl\<close> the message when it
  throws), \<^verbatim>\<open>path.relative\<close>, \<^verbatim>\<open>path.join\<close> and \<^verbatim>\<open>nunjucks.render\<close>.
\<close>

record externals =
  espree_parse :: "string \<Rightarrow> statement list option"
  pathToRegexp :: "jsval \<Rightarrow> bool \<Rightarrow> string + string"
  path_relative :: "string \<Rightarrow> string \<Rightarrow> string"
  path_join :: "string list \<Rightarrow> string"
  nunjucks_render :: "template_call \<Rightarrow> string"

text \<open>
  The state a generation pass writes: \<^verbatim>\<open>config.vueComponents\<close>, \<^verbatim>\<open>this.errors\<close>,
  the \<^verbatim>\<open>entries\<close> of the last completed pass as the calls made to the template
  renderer, and the entry files in the temporary directory.
\<close>

record plugin =
  vueComponents :: component_table
  errors :: "gen_error list"
  entries :: "(string \<times> template_call) list"
  entryFiles :: "(string \<times> string) list"

text \<open>
  A statement sequence either runs to its end or is left by an uncaught
  \<^verbatim>\<open>TypeError\<close>; both carry the state reached.
\<close>

datatype 'a outcome = Completed 'a | Thrown 'a

fun outcome_state :: "'a outcome \<Rightarrow> 'a" where
  "outcome_state (Completed s) = s"
| "outcome_state (Thrown s) = s"

section \<open>generateEntries: the scan of the component files\<close>

text \<open>
  The model follows \<^verbatim>\<open>GenerateEntriesWebpackPlugin\<close> in the revision that parses the
  \<^verbatim>\<open><script>\<close> block of every component with espree. Line numbers refer to that file.
  The earlier revision of the plugin, which reads \<^verbatim>\<open><info>\<close> blocks as JSON5, has the
  same route loop and the same templates; its scan of the files stops at
  \<^verbatim>\<open>glob.sync(vuePattern)\<close>, which names a variable that is not declared. It is used
  below only for the object that \<^verbatim>\<open>codeConfig\<close> builds.
\<close>

definition error :: "externals \<Rightarrow> 'a config_scheme \<Rightarrow> string \<Rightarrow> string \<Rightarrow> plugin \<Rightarrow> plugin" where
  "error ext cfg filePath message st =
     st\<lparr>errors := errors st @ [FileError (path_relative ext (projectDir cfg) filePath) message]\<rparr>"

text \<open>The messages of the six calls of \<^verbatim>\<open>this.error\<close>, in the order of the source.\<close>

definition quoted :: "string \<Rightarrow> string" where
  "quoted s = CHR 0x27 # s @ [CHR 0x27]"

definition msgNoScript :: string where
  "msgNoScript = ''<script>...</script> block was not found''"

definition msgNoExport :: string where
  "msgNoExport = ''Expected `export default { ... }` inside <script> block''"

definition msgInfoObject :: string where
  "msgInfoObject = quoted ''info'' @ '' option must be an object''"

definition msgAppsArray :: string where
  "msgAppsArray = quoted ''info.apps'' @ '' option must be an array of string literals''"

definition msgAppsItems :: string where
  "msgAppsItems = ''All items of '' @ quoted ''info.apps'' @ '' option be string literals''"

definition msgPathLiteral :: string where
  "msgPathLiteral = quoted ''info.path'' @ '' option must be a string literal''"

definition msgPathSlash :: string where
  "msgPathSlash = quoted ''info.path'' @ '' option must start with '' @ quoted ''/''"

text \<open>
  Lines 55 to 60: the text between \<^verbatim>\<open><script>\<close> and \<^verbatim>\<open></script>\<close>, when both
  are found and the first does not come after the second.
\<close>

definition scriptBlock :: "string \<Rightarrow> string option" where
  "scriptBlock content =
     (case indexOf content ''<script>'' of
        None \<Rightarrow> None
      | Some start \<Rightarrow>
          (case indexOf content ''</script>'' of
             None \<Rightarrow> None
           | Some end' \<Rightarrow>
               if start > end' then None
               else Some (substring content (start + 8) end')))"

text \<open>
  Lines 78 to 82: the first \<^verbatim>\<open>ExportDefaultDeclaration\<close> of the module, when its
  declaration is an object literal.
\<close>

definition isExportDefault :: "statement \<Rightarrow> bool" where
  "isExportDefault node =
     (case node of ExportDefaultDeclaration d \<Rightarrow> True | OtherStatement \<Rightarrow> False)"

definition exportObject :: "statement list \<Rightarrow> (property_key \<times> expr) list option" where
  "exportObject body =
     (case find isExportDefault body of
        Some (ExportDefaultDeclaration (ObjectExpression properties)) \<Rightarrow> Some properties
      | _ \<Rightarrow> None)"

text \<open>
  \<^verbatim>\<open>properties.find(node => node.key.type === 'Identifier' && node.key.name === name)\<close>,
  giving the value of the property found.
\<close>

definition findProp :: "string \<Rightarrow> (property_key \<times> expr) list \<Rightarrow> expr option" where
  "findProp name properties =
     map_option snd (find (\<lambda>node. fst node = Identifier name) properties)"

text \<open>
  Lines 104 to 111: the loop over the elements of \<^verbatim>\<open>info.apps\<close>. Reading
  \<^verbatim>\<open>appElem.type\<close> of a hole throws.
\<close>

fun collectApps ::
  "externals \<Rightarrow> 'a config_scheme \<Rightarrow> string \<Rightarrow> expr option list \<Rightarrow> string list \<Rightarrow> plugin
     \<Rightarrow> (string list \<times> plugin) outcome" where
  "collectApps ext cfg vuePath [] apps st = Completed (apps, st)"
| "collectApps ext cfg vuePath (None # elems) apps st = Thrown (apps, st)"
| "collectApps ext cfg vuePath (Some (Literal (StringLiteral v)) # elems) apps st =
     collectApps ext cfg vuePath elems (apps @ [v]) st"
| "collectApps ext cfg vuePath (Some appElem # elems) apps st =
     collectApps ext cfg vuePath elems apps (error ext cfg vuePath msgAppsItems st)"

text \<open>
  Lines 120 to 135: the \<^verbatim>\<open>path\<close> property of \<^verbatim>\<open>info\<close>. The assignment
  \<^verbatim>\<open>this.config.vueComponents[vuePath].path = ...\<close> throws when the table has no
  entry for the file.
\<close>

definition processPath ::
  "externals \<Rightarrow> 'a config_scheme \<Rightarrow> string \<Rightarrow> (property_key \<times> expr) list \<Rightarrow> plugin
     \<Rightarrow> plugin outcome" where
  "processPath ext cfg vuePath props st =
     (case findProp ''path'' props of
        None \<Rightarrow> Completed st
      | Some (Literal (StringLiteral v)) \<Rightarrow>
          if \<not> startsWith v ''/'' then Completed (error ext cfg vuePath msgPathSlash st)
          else (case map_of (vueComponents st) vuePath of
                  None \<Rightarrow> Thrown st
                | Some info \<Rightarrow>
                    Completed (st\<lparr>vueComponents :=
                      AList.update vuePath (AList.update ''path'' (JString v) info)
                        (vueComponents st)\<rparr>))
      | Some other \<Rightarrow> Completed (error ext cfg vuePath msgPathLiteral st))"

text \<open>Lines 92 to 135: the properties of an \<^verbatim>\<open>info\<close> that is an object literal.\<close>

definition processInfo ::
  "externals \<Rightarrow> 'a config_scheme \<Rightarrow> string \<Rightarrow> (property_key \<times> expr) list \<Rightarrow> plugin
     \<Rightarrow> plugin outcome" where
  "processInfo ext cfg vuePath props st =
     (case findProp ''apps'' props of
        None \<Rightarrow> processPath ext cfg vuePath props st
      | Some (ArrayExpression elements) \<Rightarrow>
          if length elements > 0 then
            (case collectApps ext cfg vuePath elements [] st of
               Thrown (apps, st') \<Rightarrow> Thrown st'
             | Completed (apps, st') \<Rightarrow>
                 if appName cfg \<notin> set apps
                 then Completed (st'\<lparr>vueComponents := AList.delete vuePath (vueComponents st')\<rparr>)
                 else processPath ext cfg vuePath props st')
          else processPath ext cfg vuePath props st
      | Some other \<Rightarrow> Completed (error ext cfg vuePath msgAppsArray st))"

text \<open>Lines 52 to 136: the body of the loop over the files, for one file.\<close>

definition processFile ::
  "externals \<Rightarrow> 'a config_scheme \<Rightarrow> string \<Rightarrow> string \<Rightarrow> plugin \<Rightarrow> plugin outcome" where
  "processFile ext cfg vuePath content st0 =
     (let st = st0\<lparr>vueComponents := AList.update vuePath [] (vueComponents st0)\<rparr> in
      case scriptBlock content of
        None \<Rightarrow> Completed (error ext cfg vuePath msgNoScript st)
      | Some script \<Rightarrow>
          (case espree_parse ext script of
             None \<Rightarrow> Completed st
           | Some body \<Rightarrow>
               (case exportObject body of
                  None \<Rightarrow> Completed (error ext cfg vuePath msgNoExport st)
                | Some properties \<Rightarrow>
                    (case findProp ''info'' properties of
                       None \<Rightarrow> Completed st
                     | Some (ObjectExpression props) \<Rightarrow> processInfo ext cfg vuePath props st
                     | Some other \<Rightarrow> Completed (error ext cfg vuePath msgInfoObject st)))))"

text \<open>
  Lines 49 to 137: \<^verbatim>\<open>glob.sync\<close> and \<^verbatim>\<open>fs.readFileSync\<close> give the files as pairs
  of a path and its content, in the order of the glob.
\<close>

fun scanFiles ::
  "externals \<Rightarrow> 'a config_scheme \<Rightarrow> (string \<times> string) list \<Rightarrow> plugin \<Rightarrow> plugin outcome" where
  "scanFiles ext cfg [] st = Completed st"
| "scanFiles ext cfg ((vuePath, content) # files) st =
     (case processFile ext cfg vuePath content st of
        Thrown st' \<Rightarrow> Thrown st'
      | Completed st' \<Rightarrow> scanFiles ext cfg files st')"

section \<open>generateEntries: routes, template data and entry files\<close>

text \<open>
  Lines 143 to 157: the loop that compiles the page paths, over the table in the order
  of its keys, from the list of paths and the errors so far.
\<close>

fun compileRoutes ::
  "externals \<Rightarrow> 'a config_scheme \<Rightarrow> component_table \<Rightarrow> string list \<times> gen_error list
     \<Rightarrow> string list \<times> gen_error list" where
  "compileRoutes ext cfg [] acc = acc"
| "compileRoutes ext cfg ((vuePath, info) # rest) (pagePaths, errs) =
     (if truthy (js_get info ''path'') then
        (case pathToRegexp ext (js_get info ''path'') (caseSensitive cfg) of
           Inr re \<Rightarrow> compileRoutes ext cfg rest (pagePaths @ [re], errs)
         | Inl msg \<Rightarrow> compileRoutes ext cfg rest (pagePaths, errs @ [PagePathError vuePath msg]))
      else compileRoutes ext cfg rest (pagePaths, errs))"

text \<open>
  Modelled from the spec: \<^verbatim>\<open>codeConfig\<close> is imported from \<^verbatim>\<open>../config\<close>, which is
  not among the sources. The spec (4.5 and 6) says that the backend entry receives the
  keys of \<^verbatim>\<open>custom\<close> and the network-addressing keys \<^verbatim>\<open>host\<close>, \<^verbatim>\<open>port\<close> and
  \<^verbatim>\<open>backendPort\<close>; the earlier revision of the plugin
  (lib/webpack/generate-entries-plugin.js, lines 69 to 75) builds the object in that
  order: first every key of \<^verbatim>\<open>config.custom\<close>, then the three fixed keys.
\<close>

definition codeConfig :: "'a config_scheme \<Rightarrow> jsobject" where
  "codeConfig cfg =
     fold (\<lambda>(key, v). AList.update key v)
       [(''host'', host cfg), (''port'', port cfg), (''backendPort'', backendPort cfg)]
       (fold (\<lambda>key. AList.update key (js_get (custom cfg) key)) (map fst (custom cfg)) [])"

text \<open>
  \<^verbatim>\<open>e && path.join(this.config.projectDir, 'src', e)\<close>: an absent or empty entry is
  passed on as it is.
\<close>

definition entryPath :: "externals \<Rightarrow> 'a config_scheme \<Rightarrow> string option \<Rightarrow> jsval" where
  "entryPath ext cfg e =
     (case e of
        None \<Rightarrow> JUndefined
      | Some s \<Rightarrow> if s = [] then JString [] else JString (path_join ext [projectDir cfg, ''src'', s]))"

text \<open>Lines 177 to 186: every entry is rendered and written to the temporary directory.\<close>

fun writeEntries ::
  "externals \<Rightarrow> 'a config_scheme \<Rightarrow> (string \<times> template_call) list \<Rightarrow> (string \<times> string) list
     \<Rightarrow> (string \<times> string) list" where
  "writeEntries ext cfg [] fs = fs"
| "writeEntries ext cfg ((entryType, call) # rest) fs =
     writeEntries ext cfg rest
       (AList.update (path_join ext [tempDir cfg, entryType @ ''-entry.js''])
          (nunjucks_render ext call) fs)"

definition generateEntries ::
  "externals \<Rightarrow> 'a config_scheme \<Rightarrow> (string \<times> string) list \<Rightarrow> plugin \<Rightarrow> plugin outcome" where
  "generateEntries ext cfg files st0 =
     (case scanFiles ext cfg files (st0\<lparr>errors := [], vueComponents := []\<rparr>) of
        Thrown st \<Rightarrow> Thrown st
      | Completed st \<Rightarrow>
          (let (backend, errs) =
                 (if type cfg = ''web'' then
                    (let (pagePaths, errs) =
                           compileRoutes ext cfg (vueComponents st) ([], errors st)
                     in ([(''backend'', BackendTemplate
                            \<lparr>bd_env = env cfg, bd_appName = appName cfg, bd_pagePaths = pagePaths,
                             bd_entry = entryPath ext cfg (backendEntry cfg),
                             bd_conf = codeConfig cfg\<rparr>)], errs))
                  else ([], errors st));
               all = AList.update ''frontend''
                       (FrontendTemplate
                          \<lparr>fd_vueComponents = vueComponents st,
                           fd_entry = entryPath ext cfg (entry cfg),
                           fd_caseSensitive = caseSensitive cfg\<rparr>) backend
           in Completed (st\<lparr>errors := errs, entries := all,
                            entryFiles := writeEntries ext cfg all (entryFiles st)\<rparr>)))"

text \<open>
  The pass above leaves out two effects of the source that no statement below is about:
  \<^verbatim>\<open>this.vuePattern\<close> (the glob is an input here) and the modification time that
  \<^verbatim>\<open>fs.utimesSync\<close> sets on the first pass.
\<close>

section \<open>apply: the first pass and the watcher\<close>

text \<open>
  \<^verbatim>\<open>apply\<close> runs one pass and, when \<^verbatim>\<open>config.env === 'dev'\<close>, registers the three
  handlers of the file watcher. \<open>watching\<close> records that the handlers are registered and
  \<open>passes\<close> counts the calls of \<^verbatim>\<open>generateEntries\<close>. An event arrives with the
  files the glob matches at that moment. The watcher reports paths that match the
  pattern \<^verbatim>\<open><projectDir>/src/**/*.vue\<close>, so \<^verbatim>\<open>filePath in vueComponents\<close> is
  membership among the table's own keys. The handler of the \<^verbatim>\<open>done\<close> hook, which
  appends \<^verbatim>\<open>this.errors\<close> to the errors of the compilation, changes nothing of the
  plugin and is left out.
\<close>

record controller =
  plugin_state :: plugin
  watching :: bool
  passes :: nat

datatype event = Add string | Change string | Unlink string

definition regenerate ::
  "externals \<Rightarrow> 'a config_scheme \<Rightarrow> (string \<times> string) list \<Rightarrow> controller \<Rightarrow> controller outcome" where
  "regenerate ext cfg files c =
     (case generateEntries ext cfg files (plugin_state c) of
        Completed s \<Rightarrow> Completed (c\<lparr>plugin_state := s, passes := Suc (passes c)\<rparr>)
      | Thrown s \<Rightarrow> Thrown (c\<lparr>plugin_state := s, passes := Suc (passes c)\<rparr>))"

definition apply_plugin ::
  "externals \<Rightarrow> 'a config_scheme \<Rightarrow> (string \<times> string) list \<Rightarrow> plugin \<Rightarrow> controller outcome" where
  "apply_plugin ext cfg files st0 =
     (case regenerate ext cfg files \<lparr>plugin_state = st0, watching = False, passes = 0\<rparr> of
        Thrown c \<Rightarrow> Thrown c
      | Completed c \<Rightarrow> Completed (c\<lparr>watching := (env cfg = ''dev'')\<rparr>))"

definition onEvent ::
  "externals \<Rightarrow> 'a config_scheme \<Rightarrow> event \<Rightarrow> (string \<times> string) list \<Rightarrow> controller
     \<Rightarrow> controller outcome" where
  "onEvent ext cfg ev files c =
     (if \<not> watching c then Completed c
      else (case ev of
              Add filePath \<Rightarrow> regenerate ext cfg files c
            | Change filePath \<Rightarrow> regenerate ext cfg files c
            | Unlink filePath \<Rightarrow>
                if filePath \<in> fst ` set (vueComponents (plugin_state c))
                then regenerate ext cfg files c
                else Completed c))"

fun run ::
  "externals \<Rightarrow> 'a config_scheme \<Rightarrow> (event \<times> (string \<times> string) list) list \<Rightarrow> controller
     \<Rightarrow> controller outcome" where
  "run ext cfg [] c = Completed c"
| "run ext cfg ((ev, files) # rest) c =
     (case onEvent ext cfg ev files c of
        Thrown c' \<Rightarrow> Thrown c'
      | Completed c' \<Rightarrow> run ext cfg rest c')"

definition runFrom ::
  "externals \<Rightarrow> 'a config_scheme \<Rightarrow> (event \<times> (string \<times> string) list) list \<Rightarrow> controller outcome
     \<Rightarrow> controller outcome" where
  "runFrom ext cfg evs start =
     (case start of Thrown c \<Rightarrow> Thrown c | Completed c \<Rightarrow> run ext cfg evs c)"

section \<open>BackendWebpackPlugin: writing the assets\<close>

text \<open>
  The handler of the \<^verbatim>\<open>done\<close> hook. \<open>write\<close> is \<^verbatim>\<open>fs.outputFileSync\<close> on a file
  system of type \<open>'fs\<close>: it returns the file system it leaves and the exception it
  throws, if any. An asset's \<^verbatim>\<open>source()\<close> is \<open>Inr\<close> its text, or \<open>Inl\<close> the exception
  it throws; both calls stand inside the \<^verbatim>\<open>try\<close>.
\<close>

fun writeAssets ::
  "('fs \<Rightarrow> string \<Rightarrow> string \<Rightarrow> 'fs \<times> 'e option) \<Rightarrow> (string \<Rightarrow> string \<Rightarrow> string) \<Rightarrow> string
     \<Rightarrow> (string \<times> ('e + string)) list \<Rightarrow> 'e list \<times> 'fs \<Rightarrow> 'e list \<times> 'fs" where
  "writeAssets write join outputPath [] st = st"
| "writeAssets write join outputPath ((assetPath, source) # assets) (errs, fs) =
     (case source of
        Inl e \<Rightarrow> writeAssets write join outputPath assets (errs @ [e], fs)
      | Inr text \<Rightarrow>
          (case write fs (join outputPath assetPath) text of
             (fs', Some e) \<Rightarrow> writeAssets write join outputPath assets (errs @ [e], fs')
           | (fs', None) \<Rightarrow> writeAssets write join outputPath assets (errs, fs')))"

definition backendDone ::
  "('fs \<Rightarrow> string \<Rightarrow> string \<Rightarrow> 'fs \<times> 'e option) \<Rightarrow> (string \<Rightarrow> string \<Rightarrow> string) \<Rightarrow> string
     \<Rightarrow> (string \<times> ('e + string)) list \<Rightarrow> 'e list \<times> 'fs \<Rightarrow> 'e list \<times> 'fs" where
  "backendDone write join outputPath assets st =
     (if length (fst st) \<noteq> 0 then st else writeAssets write join outputPath assets st)"

section \<open>A small project, for evaluating the definitions\<close>

definition demoModule :: "expr \<Rightarrow> statement list" where
  "demoModule info = [OtherStatement, ExportDefaultDeclaration (ObjectExpression
     [(Identifier ''name'', Literal (StringLiteral ''page'')), (Identifier ''info'', info)])]"

definition demoParse :: "string \<Rightarrow> statement list option" where
  "demoParse script =
     (if script = ''A'' then Some (demoModule (ObjectExpression
        [(Identifier ''path'', Literal (StringLiteral ''/home''))]))
      else if script = ''B'' then Some (demoModule (ObjectExpression
        [(Identifier ''apps'', ArrayExpression [Some (Literal (StringLiteral ''web''))]),
         (Identifier ''path'', Literal (StringLiteral ''/b''))]))
      else if script = ''C'' then Some (demoModule (ObjectExpression
        [(Identifier ''path'', Literal (StringLiteral ''foo''))]))
      else if script = ''D'' then Some (demoModule (ObjectExpression
        [(Identifier ''apps'', ArrayExpression [Some (Literal (StringLiteral ''other''))]),
         (Identifier ''path'', Literal (StringLiteral ''foo''))]))
      else if script = ''E'' then Some [ExportDefaultDeclaration (ObjectExpression [])]
      else if script = ''F'' then Some (demoModule (ObjectExpression
        [(Identifier ''apps'', ArrayExpression [Some OtherExpression, Some (Literal OtherLiteral)])]))
      else if script = ''G'' then Some (demoModule (ObjectExpression
        [(Identifier ''apps'', ArrayExpression [None])]))
      else None)"

definition demoJoin :: "string list \<Rightarrow> string" where
  "demoJoin parts = (case parts of [] \<Rightarrow> ''.'' | x # xs \<Rightarrow> foldl (\<lambda>a b. a @ ''/'' @ b) x xs)"

definition demoExt :: externals where
  "demoExt =
     \<lparr>espree_parse = demoParse,
      pathToRegexp = (\<lambda>p sensitive.
         case p of
           JString s \<Rightarrow> if s = ''/('' then Inl ''Unterminated group''
                        else Inr (''/^'' @ s @ (if sensitive then ''$/'' else ''$/i''))
         | other \<Rightarrow> Inl ''not a string''),
      path_relative = (\<lambda>from to. drop (Suc (length from)) to),
      path_join = demoJoin,
      nunjucks_render = (\<lambda>call.
         case call of BackendTemplate d \<Rightarrow> ''backend'' | FrontendTemplate d \<Rightarrow> ''frontend'')\<rparr>"

definition demoConfig :: config where
  "demoConfig =
     \<lparr>projectDir = ''/p'', tempDir = ''/t'', appName = ''web'', type = ''web'', env = ''dev'',
      caseSensitive = False, backendEntry = None, entry = None,
      custom = [(''title'', JString ''demo'')],
      host = JString ''localhost'', port = JNumber 8080, backendPort = JNumber 3000\<rparr>"

definition demoFiles :: "(string \<times> string) list" where
  "demoFiles =
     [(''/p/src/a.vue'', ''<template/><script>A</script>''),
      (''/p/src/b.vue'', ''<script>B</script>''),
      (''/p/src/c.vue'', ''<script>C</script>''),
      (''/p/src/d.vue'', ''<script>D</script>''),
      (''/p/src/e.vue'', ''<script>E</script>''),
      (''/p/src/f.vue'', ''<script>F</script>''),
      (''/p/src/n.vue'', ''<template/>''),
      (''/p/src/s.vue'', ''<script>?</script>'')]"

text \<open>
  A configuration that differs from \<open>demoConfig\<close> in the temporary directory, in the
  frontend entry and by a further key.
\<close>

definition demoOtherConfig :: "string config_scheme" where
  "demoOtherConfig =
     config.extend (demoConfig\<lparr>tempDir := ''/elsewhere'', entry := Some ''main.js''\<rparr>)
       ''a secret''"

definition emptyPlugin :: plugin where
  "emptyPlugin = \<lparr>vueComponents = [], errors = [], entries = [], entryFiles = []\<rparr>"

definition demoWrite :: "(string \<times> string) list \<Rightarrow> string \<Rightarrow> string \<Rightarrow> (string \<times> string) list \<times> string option" where
  "demoWrite fs p t = (if p = ''/out/bad.js'' then (fs, Some ''EACCES'') else (AList.update p t fs, None))"

definition demoJoin2 :: "string \<Rightarrow> string \<Rightarrow> string" where
  "demoJoin2 a b = a @ ''/'' @ b"

section \<open>Vocabulary of the statements\<close>

text \<open>
  An error is about a file when it was pushed by \<^verbatim>\<open>this.error\<close> for that file, or is
  the page path error of that file. An error of the first kind carries the path relative
  to the project directory only, so the statements that count the errors of a file take
  \<^verbatim>\<open>path.relative\<close> to be injective on the paths of the glob, as it is on distinct
  normalised paths.
\<close>

definition aboutFile :: "externals \<Rightarrow> 'a config_scheme \<Rightarrow> string \<Rightarrow> gen_error \<Rightarrow> bool" where
  "aboutFile ext cfg vuePath e =
     (case e of
        FileError f m \<Rightarrow> f = path_relative ext (projectDir cfg) vuePath
      | PagePathError p m \<Rightarrow> p = vuePath)"

definition errorsFor :: "externals \<Rightarrow> 'a config_scheme \<Rightarrow> string \<Rightarrow> gen_error list \<Rightarrow> gen_error list" where
  "errorsFor ext cfg vuePath errs = filter (aboutFile ext cfg vuePath) errs"

text \<open>
  The properties of a file's \<^verbatim>\<open>info\<close> object literal, found by the same lookups as
  \<open>processFile\<close> makes (lines 55 to 92), and its \<^verbatim>\<open>info.apps\<close> and \<^verbatim>\<open>info.path\<close>.
\<close>

definition infoProps :: "externals \<Rightarrow> string \<Rightarrow> (property_key \<times> expr) list option" where
  "infoProps ext content =
     (case scriptBlock content of
        None \<Rightarrow> None
      | Some script \<Rightarrow>
          (case espree_parse ext script of
             None \<Rightarrow> None
           | Some body \<Rightarrow>
               (case exportObject body of
                  None \<Rightarrow> None
                | Some properties \<Rightarrow>
                    (case findProp ''info'' properties of
                       Some (ObjectExpression props) \<Rightarrow> Some props
                     | _ \<Rightarrow> None))))"

definition infoApps :: "externals \<Rightarrow> string \<Rightarrow> expr option" where
  "infoApps ext content =
     (case infoProps ext content of None \<Rightarrow> None | Some props \<Rightarrow> findProp ''apps'' props)"

definition infoPath :: "externals \<Rightarrow> string \<Rightarrow> expr option" where
  "infoPath ext content =
     (case infoProps ext content of None \<Rightarrow> None | Some props \<Rightarrow> findProp ''path'' props)"

definition stringLiterals :: "string list \<Rightarrow> expr option list" where
  "stringLiterals ss = map (\<lambda>s. Some (Literal (StringLiteral s))) ss"

text \<open>
  The compiled page paths of a table and the errors of its compilation: what the loop of
  lines 143 to 157 adds to empty lists.
\<close>

definition pagePathsOf :: "externals \<Rightarrow> 'a config_scheme \<Rightarrow> component_table \<Rightarrow> string list" where
  "pagePathsOf ext cfg table = fst (compileRoutes ext cfg table ([], []))"

definition pagePathErrors :: "externals \<Rightarrow> 'a config_scheme \<Rightarrow> component_table \<Rightarrow> gen_error list" where
  "pagePathErrors ext cfg table = snd (compileRoutes ext cfg table ([], []))"

text \<open>The data of the call that renders the backend template, when the pass made one.\<close>

definition backendData :: "plugin \<Rightarrow> backend_data option" where
  "backendData st =
     (case map_of (entries st) ''backend'' of
        Some (BackendTemplate d) \<Rightarrow> Some d
      | _ \<Rightarrow> None)"

text \<open>
  The string literals among the elements of an array literal, in order: the list
  \<^verbatim>\<open>apps\<close> that the loop of lines 104 to 111 builds.
\<close>

definition isStringLiteral :: "expr option \<Rightarrow> bool" where
  "isStringLiteral e = (case e of Some (Literal (StringLiteral v)) \<Rightarrow> True | _ \<Rightarrow> False)"

fun literalApps :: "expr option list \<Rightarrow> string list" where
  "literalApps [] = []"
| "literalApps (Some (Literal (StringLiteral v)) # elems) = v # literalApps elems"
| "literalApps (e # elems) = literalApps elems"

text \<open>A file whose \<^verbatim>\<open>info.apps\<close> is an array literal with a hole.\<close>

definition hasHole :: "externals \<Rightarrow> string \<Rightarrow> bool" where
  "hasHole ext content =
     (case infoApps ext content of
        Some (ArrayExpression elements) \<Rightarrow> None \<in> set elements
      | _ \<Rightarrow> False)"

text \<open>The keys of the component table.\<close>

definition tableKeys :: "component_table \<Rightarrow> string set" where
  "tableKeys table = fst ` set table"

text \<open>
  What the processing of one file may change: the table at that file's key only, and the
  error list by appending errors of that file.
\<close>

definition fileStep :: "externals \<Rightarrow> 'a config_scheme \<Rightarrow> string \<Rightarrow> plugin \<Rightarrow> plugin \<Rightarrow> bool" where
  "fileStep ext cfg vuePath st st' =
     ((\<forall>q. q \<noteq> vuePath \<longrightarrow> map_of (vueComponents st') q = map_of (vueComponents st) q) \<and>
      (\<exists>new. errors st' = errors st @ new \<and>
         (\<forall>e \<in> set new. \<exists>m. e = FileError (path_relative ext (projectDir cfg) vuePath) m)) \<and>
      (distinct (map fst (vueComponents st)) \<longrightarrow> distinct (map fst (vueComponents st'))) \<and>
      entries st' = entries st \<and> entryFiles st' = entryFiles st)"

definition demoResult :: plugin where
  "demoResult =
     \<lparr>vueComponents =
        [(''/p/src/a.vue'', [(''path'', JString ''/home'')]),
         (''/p/src/b.vue'', [(''path'', JString ''/b'')]),
         (''/p/src/c.vue'', []),
         (''/p/src/e.vue'', []),
         (''/p/src/n.vue'', []),
         (''/p/src/s.vue'', [])],
      errors =
        [FileError ''src/c.vue'' msgPathSlash,
         FileError ''src/f.vue'' msgAppsItems,
         FileError ''src/f.vue'' msgAppsItems,
         FileError ''src/n.vue'' msgNoScript],
      entries =
        [(''backend'', BackendTemplate
           \<lparr>bd_env = ''dev'', bd_appName = ''web'',
            bd_pagePaths = [''/^/home$/i'', ''/^/b$/i''],
            bd_entry = JUndefined,
            bd_conf = [(''title'', JString ''demo''), (''host'', JString ''localhost''),
                       (''port'', JNumber 8080), (''backendPort'', JNumber 3000)]\<rparr>),
         (''frontend'', FrontendTemplate
           \<lparr>fd_vueComponents =
              [(''/p/src/a.vue'', [(''path'', JString ''/home'')]),
               (''/p/src/b.vue'', [(''path'', JString ''/b'')]),
               (''/p/src/c.vue'', []),
               (''/p/src/e.vue'', []),
               (''/p/src/n.vue'', []),
               (''/p/src/s.vue'', [])],
            fd_entry = JUndefined, fd_caseSensitive = False\<rparr>)],
      entryFiles = [(''/t/backend-entry.js'', ''backend''), (''/t/frontend-entry.js'', ''frontend'')]\<rparr>"

section \<open>The scan changes one table entry per file\<close>

lemma error_fields [simp]:
  "vueComponents (error ext cfg p m st) = vueComponents st"
  "errors (error ext cfg p m st) = errors st @ [FileError (path_relative ext (projectDir cfg) p) m]"
  "entries (error ext cfg p m st) = entries st"
  "entryFiles (error ext cfg p m st) = entryFiles st"
  by (simp_all add: error_def)

lemma fileStep_refl: "fileStep ext cfg p st st"
  by (simp add: fileStep_def)

lemma fileStep_trans:
  assumes "fileStep ext cfg p st1 st2" and "fileStep ext cfg p st2 st3"
  shows "fileStep ext cfg p st1 st3"
proof -
  from assms(1) obtain n1 where n1: "errors st2 = errors st1 @ n1"
    "\<forall>e \<in> set n1. \<exists>m. e = FileError (path_relative ext (projectDir cfg) p) m"
    unfolding fileStep_def by blast
  from assms(2) obtain n2 where n2: "errors st3 = errors st2 @ n2"
    "\<forall>e \<in> set n2. \<exists>m. e = FileError (path_relative ext (projectDir cfg) p) m"
    unfolding fileStep_def by blast
  have e: "errors st3 = errors st1 @ (n1 @ n2)" using n1(1) n2(1) by simp
  have a: "\<forall>e \<in> set (n1 @ n2). \<exists>m. e = FileError (path_relative ext (projectDir cfg) p) m"
    using n1(2) n2(2) by auto
  have rest: "(\<forall>q. q \<noteq> p \<longrightarrow> map_of (vueComponents st3) q = map_of (vueComponents st1) q) \<and>
      (distinct (map fst (vueComponents st1)) \<longrightarrow> distinct (map fst (vueComponents st3))) \<and>
      entries st3 = entries st1 \<and> entryFiles st3 = entryFiles st1"
    using assms unfolding fileStep_def by simp
  show ?thesis unfolding fileStep_def using e a rest by blast
qed

lemma fileStep_error: "fileStep ext cfg p st (error ext cfg p m st)"
  by (simp add: fileStep_def)

lemma fileStep_update:
  "fileStep ext cfg p st (st\<lparr>vueComponents := AList.update p info (vueComponents st)\<rparr>)"
  by (simp add: fileStep_def update_conv' distinct_update)

lemma fileStep_delete:
  "fileStep ext cfg p st (st\<lparr>vueComponents := AList.delete p (vueComponents st)\<rparr>)"
  by (simp add: fileStep_def delete_conv' distinct_delete)

lemma collectApps_step:
  "fileStep ext cfg p st (snd (outcome_state (collectApps ext cfg p elems apps st)))"
proof (induction elems arbitrary: apps st)
  case Nil
  show ?case by (simp add: fileStep_refl)
next
  case (Cons a elems)
  have err: "fileStep ext cfg p st
      (snd (outcome_state (collectApps ext cfg p elems apps (error ext cfg p msgAppsItems st))))"
    by (rule fileStep_trans[OF fileStep_error Cons.IH])
  show ?case
  proof (cases a)
    case None
    then show ?thesis by (simp add: fileStep_refl)
  next
    case (Some e)
    show ?thesis
    proof (cases e)
      case (Literal l)
      show ?thesis
      proof (cases l)
        case (StringLiteral v)
        with Cons.IH[where apps = "apps @ [v]" and st = st] show ?thesis by (simp add: Some Literal)
      next
        case OtherLiteral
        with err show ?thesis by (simp add: Some Literal)
      qed
    next
      case (ObjectExpression ps)
      with err show ?thesis by (simp add: Some)
    next
      case (ArrayExpression es)
      with err show ?thesis by (simp add: Some)
    next
      case OtherExpression
      with err show ?thesis by (simp add: Some)
    qed
  qed
qed

lemma processPath_step:
  "fileStep ext cfg p st (outcome_state (processPath ext cfg p props st))"
  by (auto simp: processPath_def fileStep_refl fileStep_error fileStep_update
      split: option.splits expr.splits literal.splits)

lemma processInfo_step:
  "fileStep ext cfg p st (outcome_state (processInfo ext cfg p props st))"
proof (cases "findProp ''apps'' props")
  case None
  then show ?thesis by (simp add: processInfo_def processPath_step)
next
  case (Some appsValue)
  show ?thesis
  proof (cases appsValue)
    case (ArrayExpression elements)
    show ?thesis
    proof (cases "elements = []")
      case True
      then show ?thesis by (simp add: processInfo_def Some ArrayExpression processPath_step)
    next
      case False
      have c: "fileStep ext cfg p st (snd (outcome_state (collectApps ext cfg p elements [] st)))"
        by (rule collectApps_step)
      show ?thesis
      proof (cases "collectApps ext cfg p elements [] st")
        case (Thrown r)
        with c show ?thesis
          by (cases r) (simp add: processInfo_def Some ArrayExpression False)
      next
        case (Completed r)
        obtain apps st' where r: "r = (apps, st')" by (cases r)
        from c have c': "fileStep ext cfg p st st'" by (simp add: Completed r)
        show ?thesis
        proof (cases "appName cfg \<in> set apps")
          case True
          with fileStep_trans[OF c' processPath_step] show ?thesis
            by (simp add: processInfo_def Some ArrayExpression False Completed r)
        next
          case notin: False
          with fileStep_trans[OF c' fileStep_delete] show ?thesis
            by (simp add: processInfo_def Some ArrayExpression False Completed r)
        qed
      qed
    qed
  qed (simp_all add: processInfo_def Some fileStep_error)
qed

lemma processFile_step:
  "fileStep ext cfg p st (outcome_state (processFile ext cfg p c st))"
  unfolding processFile_def Let_def
  by (auto split: option.splits expr.splits
      intro: fileStep_update fileStep_trans[OF fileStep_update fileStep_error]
             fileStep_trans[OF fileStep_update processInfo_step])


lemma errorsFor_append [simp]:
  "errorsFor ext cfg p (xs @ ys) = errorsFor ext cfg p xs @ errorsFor ext cfg p ys"
  by (simp add: errorsFor_def)

lemma errorsFor_Nil [simp]: "errorsFor ext cfg p [] = []"
  by (simp add: errorsFor_def)

lemma errorsFor_FileError [simp]:
  "errorsFor ext cfg p [FileError f m] =
     (if f = path_relative ext (projectDir cfg) p then [FileError f m] else [])"
  by (simp add: errorsFor_def aboutFile_def)

lemma fileStep_other:
  assumes "fileStep ext cfg p st st'"
    and "q \<noteq> p"
    and "path_relative ext (projectDir cfg) q \<noteq> path_relative ext (projectDir cfg) p"
  shows "map_of (vueComponents st') q = map_of (vueComponents st) q"
    and "errorsFor ext cfg q (errors st') = errorsFor ext cfg q (errors st)"
proof -
  from assms(1,2) show "map_of (vueComponents st') q = map_of (vueComponents st) q"
    by (simp add: fileStep_def)
  from assms(1) obtain new where new: "errors st' = errors st @ new"
    "\<forall>e \<in> set new. \<exists>m. e = FileError (path_relative ext (projectDir cfg) p) m"
    unfolding fileStep_def by blast
  have "filter (aboutFile ext cfg q) new = []"
    using new(2) assms(3) by (auto simp: filter_empty_conv aboutFile_def)
  then show "errorsFor ext cfg q (errors st') = errorsFor ext cfg q (errors st)"
    by (simp add: new(1) errorsFor_def)
qed

lemma fileStep_distinct:
  "fileStep ext cfg p st st' \<Longrightarrow> distinct (map fst (vueComponents st))
     \<Longrightarrow> distinct (map fst (vueComponents st'))"
  by (simp add: fileStep_def)

lemma fileStep_no_pagePath:
  assumes "fileStep ext cfg p st st'"
    and "\<forall>e \<in> set (errors st). \<exists>f m. e = FileError f m"
  shows "\<forall>e \<in> set (errors st'). \<exists>f m. e = FileError f m"
proof -
  from assms(1) obtain new where new: "errors st' = errors st @ new"
    "\<forall>e \<in> set new. \<exists>m. e = FileError (path_relative ext (projectDir cfg) p) m"
    unfolding fileStep_def by blast
  show ?thesis using new assms(2) by auto
qed

lemma scanFiles_append:
  "scanFiles ext cfg (xs @ ys) st =
     (case scanFiles ext cfg xs st of
        Thrown st' \<Rightarrow> Thrown st'
      | Completed st' \<Rightarrow> scanFiles ext cfg ys st')"
  by (induction xs arbitrary: st) (auto split: outcome.splits)

lemma scanFiles_frame_table:
  assumes "p \<notin> fst ` set files"
  shows "map_of (vueComponents (outcome_state (scanFiles ext cfg files st))) p
           = map_of (vueComponents st) p"
  using assms
proof (induction files arbitrary: st)
  case Nil
  show ?case by simp
next
  case (Cons f files)
  obtain q c where f: "f = (q, c)" by (cases f)
  have qp: "p \<noteq> q" using Cons.prems(1) by (auto simp: f)
  have step: "fileStep ext cfg q st (outcome_state (processFile ext cfg q c st))"
    by (rule processFile_step)
  from step qp have o: "map_of (vueComponents (outcome_state (processFile ext cfg q c st))) p
      = map_of (vueComponents st) p"
    by (simp add: fileStep_def)
  have rest: "p \<notin> fst ` set files" using Cons.prems by auto
  show ?case
  proof (cases "processFile ext cfg q c st")
    case (Completed st')
    with o Cons.IH[OF rest, of st'] show ?thesis by (simp add: f)
  next
    case (Thrown st')
    with o show ?thesis by (simp add: f)
  qed
qed

lemma scanFiles_frame_errors:
  assumes "path_relative ext (projectDir cfg) p
           \<notin> path_relative ext (projectDir cfg) ` fst ` set files"
  shows "errorsFor ext cfg p (errors (outcome_state (scanFiles ext cfg files st)))
           = errorsFor ext cfg p (errors st)"
  using assms
proof (induction files arbitrary: st)
  case Nil
  show ?case by simp
next
  case (Cons f files)
  obtain q c where f: "f = (q, c)" by (cases f)
  have rqp: "path_relative ext (projectDir cfg) p \<noteq> path_relative ext (projectDir cfg) q"
    using Cons.prems by (auto simp: f)
  then have qp: "p \<noteq> q" by auto
  have step: "fileStep ext cfg q st (outcome_state (processFile ext cfg q c st))"
    by (rule processFile_step)
  note o = fileStep_other(2)[OF step qp rqp]
  have rest:
    "path_relative ext (projectDir cfg) p \<notin> path_relative ext (projectDir cfg) ` fst ` set files"
    using Cons.prems by auto
  show ?case
  proof (cases "processFile ext cfg q c st")
    case (Completed st')
    with o Cons.IH[OF rest, of st'] show ?thesis by (simp add: f)
  next
    case (Thrown st')
    with o show ?thesis by (simp add: f)
  qed
qed

lemma scanFiles_invariants:
  assumes "distinct (map fst (vueComponents st))"
    and "\<forall>e \<in> set (errors st). \<exists>f m. e = FileError f m"
  shows "distinct (map fst (vueComponents (outcome_state (scanFiles ext cfg files st)))) \<and>
         (\<forall>e \<in> set (errors (outcome_state (scanFiles ext cfg files st))). \<exists>f m. e = FileError f m)"
  using assms
proof (induction files arbitrary: st)
  case Nil
  then show ?case by simp
next
  case (Cons f files)
  obtain q c where f: "f = (q, c)" by (cases f)
  have step: "fileStep ext cfg q st (outcome_state (processFile ext cfg q c st))"
    by (rule processFile_step)
  note d = fileStep_distinct[OF step Cons.prems(1)]
  note n = fileStep_no_pagePath[OF step Cons.prems(2)]
  show ?case
  proof (cases "processFile ext cfg q c st")
    case (Completed st')
    with d n Cons.IH[of st'] show ?thesis by (simp add: f)
  next
    case (Thrown st')
    with d n show ?thesis by (simp add: f)
  qed
qed

text \<open>
  In a scan that completes, a file of the list is processed from some state, and nothing
  after it touches its table entry.
\<close>

lemma scanFiles_split:
  assumes scan: "scanFiles ext cfg files st0 = Completed stE"
    and mem: "(p, c) \<in> set files"
    and dist: "distinct (map fst files)"
  obtains pre post st st' where "files = pre @ (p, c) # post"
    and "p \<notin> fst ` set pre" and "p \<notin> fst ` set post"
    and "scanFiles ext cfg pre st0 = Completed st"
    and "processFile ext cfg p c st = Completed st'"
    and "scanFiles ext cfg post st' = Completed stE"
    and "map_of (vueComponents stE) p = map_of (vueComponents st') p"
proof -
  from mem obtain pre post where files: "files = pre @ (p, c) # post"
    by (auto dest: split_list)
  from dist have np: "p \<notin> fst ` set pre" "p \<notin> fst ` set post"
    by (auto simp: files)
  from scan obtain st where pre: "scanFiles ext cfg pre st0 = Completed st"
    and rest: "scanFiles ext cfg ((p, c) # post) st = Completed stE"
    by (auto simp: files scanFiles_append split: outcome.splits)
  from rest obtain st' where pf: "processFile ext cfg p c st = Completed st'"
    and post: "scanFiles ext cfg post st' = Completed stE"
    by (auto split: outcome.splits)
  from scanFiles_frame_table[OF np(2), of ext cfg st'] post
  have b: "map_of (vueComponents stE) p = map_of (vueComponents st') p" by simp
  from that[OF files np pre pf post b] show thesis .
qed

text \<open>
  When the relative paths of the files differ, the errors about a file are those that the
  processing of the file itself added.
\<close>

lemma scanFiles_locate:
  assumes scan: "scanFiles ext cfg files st0 = Completed stE"
    and mem: "(p, c) \<in> set files"
    and dist: "distinct (map fst files)"
    and inj: "inj_on (path_relative ext (projectDir cfg)) (fst ` set files)"
    and clean: "errorsFor ext cfg p (errors st0) = []"
  obtains st st' where "processFile ext cfg p c st = Completed st'"
    and "errorsFor ext cfg p (errors st) = []"
    and "map_of (vueComponents stE) p = map_of (vueComponents st') p"
    and "errorsFor ext cfg p (errors stE) = errorsFor ext cfg p (errors st')"
proof -
  from scanFiles_split[OF scan mem dist] obtain pre post st st' where
    files: "files = pre @ (p, c) # post"
    and np: "p \<notin> fst ` set pre" "p \<notin> fst ` set post"
    and pre: "scanFiles ext cfg pre st0 = Completed st"
    and pf: "processFile ext cfg p c st = Completed st'"
    and post: "scanFiles ext cfg post st' = Completed stE"
    and tab: "map_of (vueComponents stE) p = map_of (vueComponents st') p"
    by blast
  have inj_p: "\<And>q. q \<in> fst ` set files \<Longrightarrow> q \<noteq> p \<Longrightarrow>
      path_relative ext (projectDir cfg) q \<noteq> path_relative ext (projectDir cfg) p"
    using inj mem by (metis fst_conv image_eqI inj_onD)
  have sub: "fst ` set pre \<subseteq> fst ` set files" "fst ` set post \<subseteq> fst ` set files"
    by (auto simp: files)
  have rp1: "path_relative ext (projectDir cfg) p
              \<notin> path_relative ext (projectDir cfg) ` fst ` set pre"
  proof
    assume "path_relative ext (projectDir cfg) p
              \<in> path_relative ext (projectDir cfg) ` fst ` set pre"
    then obtain q where q: "q \<in> fst ` set pre"
      "path_relative ext (projectDir cfg) p = path_relative ext (projectDir cfg) q"
      by blast
    from q(1) np(1) have "q \<noteq> p" by blast
    with inj_p[of q] q sub(1) show False by auto
  qed
  have rp2: "path_relative ext (projectDir cfg) p
              \<notin> path_relative ext (projectDir cfg) ` fst ` set post"
  proof
    assume "path_relative ext (projectDir cfg) p
              \<in> path_relative ext (projectDir cfg) ` fst ` set post"
    then obtain q where q: "q \<in> fst ` set post"
      "path_relative ext (projectDir cfg) p = path_relative ext (projectDir cfg) q"
      by blast
    from q(1) np(2) have "q \<noteq> p" by blast
    with inj_p[of q] q sub(2) show False by auto
  qed
  from scanFiles_frame_errors[OF rp1, of st0] pre clean
  have a: "errorsFor ext cfg p (errors st) = []" by simp
  from scanFiles_frame_errors[OF rp2, of st'] post
  have b: "errorsFor ext cfg p (errors stE) = errorsFor ext cfg p (errors st')"
    by simp
  from that[OF pf a tab b] show thesis .
qed

lemma compileRoutes_split:
  "compileRoutes ext cfg t (pp, es) = (pp @ pagePathsOf ext cfg t, es @ pagePathErrors ext cfg t)"
proof (induction t arbitrary: pp es)
  case Nil
  show ?case by (simp add: pagePathsOf_def pagePathErrors_def)
next
  case (Cons x t)
  obtain q info where x: "x = (q, info)" by (cases x)
  show ?case
  proof (cases "truthy (js_get info ''path'')")
    case False
    have "compileRoutes ext cfg (x # t) (pp, es) = compileRoutes ext cfg t (pp, es)"
      by (simp add: x False)
    moreover have "pagePathsOf ext cfg (x # t) = pagePathsOf ext cfg t"
      "pagePathErrors ext cfg (x # t) = pagePathErrors ext cfg t"
      by (simp_all add: x False pagePathsOf_def pagePathErrors_def)
    ultimately show ?thesis using Cons.IH[of pp es] by simp
  next
    case True
    show ?thesis
    proof (cases "pathToRegexp ext (js_get info ''path'') (caseSensitive cfg)")
      case (Inr re)
      have l: "compileRoutes ext cfg (x # t) (pp, es) = compileRoutes ext cfg t (pp @ [re], es)"
        by (simp add: x True Inr)
      have "compileRoutes ext cfg (x # t) ([], []) = compileRoutes ext cfg t ([re], [])"
        by (simp add: x True Inr)
      then have r: "pagePathsOf ext cfg (x # t) = re # pagePathsOf ext cfg t"
        "pagePathErrors ext cfg (x # t) = pagePathErrors ext cfg t"
        using Cons.IH[of "[re]" "[]"] by (simp_all add: pagePathsOf_def pagePathErrors_def)
      show ?thesis using l r Cons.IH[of "pp @ [re]" es] by simp
    next
      case (Inl msg)
      have l: "compileRoutes ext cfg (x # t) (pp, es)
                 = compileRoutes ext cfg t (pp, es @ [PagePathError q msg])"
        by (simp add: x True Inl)
      have "compileRoutes ext cfg (x # t) ([], [])
              = compileRoutes ext cfg t ([], [PagePathError q msg])"
        by (simp add: x True Inl)
      then have r: "pagePathsOf ext cfg (x # t) = pagePathsOf ext cfg t"
        "pagePathErrors ext cfg (x # t) = PagePathError q msg # pagePathErrors ext cfg t"
        using Cons.IH[of "[]" "[PagePathError q msg]"]
        by (simp_all add: pagePathsOf_def pagePathErrors_def)
      show ?thesis using l r Cons.IH[of pp "es @ [PagePathError q msg]"] by simp
    qed
  qed
qed

lemma pagePaths_Nil [simp]: "pagePathsOf ext cfg [] = []" "pagePathErrors ext cfg [] = []"
  by (simp_all add: pagePathsOf_def pagePathErrors_def)

lemma pagePaths_Cons:
  "pagePathsOf ext cfg ((q, info) # t) =
     (if truthy (js_get info ''path'') then
        (case pathToRegexp ext (js_get info ''path'') (caseSensitive cfg) of
           Inr re \<Rightarrow> [re] | Inl msg \<Rightarrow> [])
      else []) @ pagePathsOf ext cfg t"
  "pagePathErrors ext cfg ((q, info) # t) =
     (if truthy (js_get info ''path'') then
        (case pathToRegexp ext (js_get info ''path'') (caseSensitive cfg) of
           Inr re \<Rightarrow> [] | Inl msg \<Rightarrow> [PagePathError q msg])
      else []) @ pagePathErrors ext cfg t"
proof -
  have "(pagePathsOf ext cfg ((q, info) # t), pagePathErrors ext cfg ((q, info) # t))
          = compileRoutes ext cfg ((q, info) # t) ([], [])"
    by (simp add: pagePathsOf_def pagePathErrors_def)
  also have "\<dots> =
     (if truthy (js_get info ''path'') then
        (case pathToRegexp ext (js_get info ''path'') (caseSensitive cfg) of
           Inr re \<Rightarrow> (re # pagePathsOf ext cfg t, pagePathErrors ext cfg t)
         | Inl msg \<Rightarrow> (pagePathsOf ext cfg t, PagePathError q msg # pagePathErrors ext cfg t))
      else (pagePathsOf ext cfg t, pagePathErrors ext cfg t))"
    by (subst compileRoutes.simps) (simp add: compileRoutes_split split: sum.splits)
  finally have pair: "(pagePathsOf ext cfg ((q, info) # t), pagePathErrors ext cfg ((q, info) # t)) =
     (if truthy (js_get info ''path'') then
        (case pathToRegexp ext (js_get info ''path'') (caseSensitive cfg) of
           Inr re \<Rightarrow> (re # pagePathsOf ext cfg t, pagePathErrors ext cfg t)
         | Inl msg \<Rightarrow> (pagePathsOf ext cfg t, PagePathError q msg # pagePathErrors ext cfg t))
      else (pagePathsOf ext cfg t, pagePathErrors ext cfg t))" .
  from pair show "pagePathsOf ext cfg ((q, info) # t) =
     (if truthy (js_get info ''path'') then
        (case pathToRegexp ext (js_get info ''path'') (caseSensitive cfg) of
           Inr re \<Rightarrow> [re] | Inl msg \<Rightarrow> [])
      else []) @ pagePathsOf ext cfg t"
    by (auto split: if_splits sum.splits)
  from pair show "pagePathErrors ext cfg ((q, info) # t) =
     (if truthy (js_get info ''path'') then
        (case pathToRegexp ext (js_get info ''path'') (caseSensitive cfg) of
           Inr re \<Rightarrow> [] | Inl msg \<Rightarrow> [PagePathError q msg])
      else []) @ pagePathErrors ext cfg t"
    by (auto split: if_splits sum.splits)
qed

lemma pagePathsOf_append:
  "pagePathsOf ext cfg (xs @ ys) = pagePathsOf ext cfg xs @ pagePathsOf ext cfg ys"
  by (induction xs) (auto simp: pagePaths_Cons)

lemma pagePathErrors_about:
  "e \<in> set (pagePathErrors ext cfg t) \<Longrightarrow>
     \<exists>q info m. e = PagePathError q m \<and> (q, info) \<in> set t \<and> truthy (js_get info ''path'')"
proof (induction t)
  case Nil
  then show ?case by simp
next
  case (Cons x t)
  obtain q info where x: "x = (q, info)" by (cases x)
  from Cons.prems consider
    (new) m where "e = PagePathError q m" "truthy (js_get info ''path'')"
    | (old) "e \<in> set (pagePathErrors ext cfg t)"
  proof (cases "truthy (js_get info ''path'')")
    case False
    with Cons.prems old show ?thesis by (simp add: x pagePaths_Cons)
  next
    case True
    show ?thesis
    proof (cases "pathToRegexp ext (js_get info ''path'') (caseSensitive cfg)")
      case (Inr re)
      with Cons.prems old True show ?thesis by (simp add: x pagePaths_Cons)
    next
      case (Inl msg)
      with Cons.prems old new[of msg] True show ?thesis
        by (auto simp add: x pagePaths_Cons)
    qed
  qed
  then show ?case
  proof cases
    case new
    then show ?thesis by (auto simp: x)
  next
    case old
    from Cons.IH[OF old] show ?thesis by auto
  qed
qed

lemma errorsFor_pagePathErrors_none:
  assumes "distinct (map fst t)"
    and "\<forall>info. map_of t p = Some info \<longrightarrow> \<not> truthy (js_get info ''path'')"
  shows "errorsFor ext cfg p (pagePathErrors ext cfg t) = []"
proof -
  have "\<not> aboutFile ext cfg p e" if e: "e \<in> set (pagePathErrors ext cfg t)" for e
  proof -
    from pagePathErrors_about[OF e] obtain q info m where
      q: "e = PagePathError q m" "(q, info) \<in> set t" "truthy (js_get info ''path'')" by blast
    from assms(1) q(2) have "map_of t q = Some info" by simp
    with assms(2) q(3) have "q \<noteq> p" by auto
    then show ?thesis by (simp add: q(1) aboutFile_def)
  qed
  then show ?thesis by (simp add: errorsFor_def filter_empty_conv)
qed

lemma generateEntries_Completed:
  assumes "generateEntries ext cfg files st0 = Completed r"
  obtains stE where
    "scanFiles ext cfg files (st0\<lparr>errors := [], vueComponents := []\<rparr>) = Completed stE"
    and "vueComponents r = vueComponents stE"
    and "errors r = errors stE @
           (if type cfg = ''web'' then pagePathErrors ext cfg (vueComponents stE) else [])"
    and "backendData r =
           (if type cfg = ''web'' then
              Some \<lparr>bd_env = env cfg, bd_appName = appName cfg,
                    bd_pagePaths = pagePathsOf ext cfg (vueComponents stE),
                    bd_entry = entryPath ext cfg (backendEntry cfg),
                    bd_conf = codeConfig cfg\<rparr>
            else None)"
proof -
  from assms obtain stE where
    scan: "scanFiles ext cfg files (st0\<lparr>errors := [], vueComponents := []\<rparr>) = Completed stE"
    by (auto simp: generateEntries_def split: outcome.splits)
  from assms have
    "vueComponents r = vueComponents stE"
    "errors r = errors stE @
           (if type cfg = ''web'' then pagePathErrors ext cfg (vueComponents stE) else [])"
    "backendData r =
           (if type cfg = ''web'' then
              Some \<lparr>bd_env = env cfg, bd_appName = appName cfg,
                    bd_pagePaths = pagePathsOf ext cfg (vueComponents stE),
                    bd_entry = entryPath ext cfg (backendEntry cfg),
                    bd_conf = codeConfig cfg\<rparr>
            else None)"
    by (auto simp: generateEntries_def scan compileRoutes_split backendData_def Let_def
        split: if_splits)
  with scan that show thesis by blast
qed

lemma pass_file:
  assumes pass: "generateEntries ext cfg files st0 = Completed r"
    and mem: "(p, c) \<in> set files"
    and dist: "distinct (map fst files)"
    and inj: "inj_on (path_relative ext (projectDir cfg)) (fst ` set files)"
  obtains st st' where "processFile ext cfg p c st = Completed st'"
    and "errorsFor ext cfg p (errors st) = []"
    and "map_of (vueComponents r) p = map_of (vueComponents st') p"
    and "(\<forall>info. map_of (vueComponents r) p = Some info \<longrightarrow> \<not> truthy (js_get info ''path''))
           \<Longrightarrow> errorsFor ext cfg p (errors r) = errorsFor ext cfg p (errors st')"
    and "distinct (map fst (vueComponents r))"
proof -
  from generateEntries_Completed[OF pass] obtain stE where
    scan: "scanFiles ext cfg files (st0\<lparr>errors := [], vueComponents := []\<rparr>) = Completed stE"
    and vc: "vueComponents r = vueComponents stE"
    and er: "errors r = errors stE @
           (if type cfg = ''web'' then pagePathErrors ext cfg (vueComponents stE) else [])"
    by blast
  have d: "distinct (map fst (vueComponents stE))"
    using scanFiles_invariants[of "st0\<lparr>errors := [], vueComponents := []\<rparr>" ext cfg files] scan
    by simp
  from scanFiles_locate[OF scan mem dist inj] obtain st st' where
    pf: "processFile ext cfg p c st = Completed st'"
    and clean: "errorsFor ext cfg p (errors st) = []"
    and tab: "map_of (vueComponents stE) p = map_of (vueComponents st') p"
    and errs: "errorsFor ext cfg p (errors stE) = errorsFor ext cfg p (errors st')"
    by auto
  have e: "errorsFor ext cfg p (errors r) = errorsFor ext cfg p (errors st')"
    if "\<forall>info. map_of (vueComponents r) p = Some info \<longrightarrow> \<not> truthy (js_get info ''path'')"
    using errorsFor_pagePathErrors_none[OF d, of p ext cfg] that errs
    by (simp add: er vc)
  show thesis
    using that[OF pf clean _ e] tab vc d by simp
qed


lemma pass_file_table:
  assumes pass: "generateEntries ext cfg files st0 = Completed r"
    and mem: "(p, c) \<in> set files"
    and dist: "distinct (map fst files)"
  obtains st st' where "processFile ext cfg p c st = Completed st'"
    and "map_of (vueComponents r) p = map_of (vueComponents st') p"
    and "distinct (map fst (vueComponents r))"
proof -
  from generateEntries_Completed[OF pass] obtain stE where
    scan: "scanFiles ext cfg files (st0\<lparr>errors := [], vueComponents := []\<rparr>) = Completed stE"
    and vc: "vueComponents r = vueComponents stE"
    by blast
  have d: "distinct (map fst (vueComponents stE))"
    using scanFiles_invariants[of "st0\<lparr>errors := [], vueComponents := []\<rparr>" ext cfg files] scan
    by simp
  from scanFiles_split[OF scan mem dist] obtain st st' where
    pf: "processFile ext cfg p c st = Completed st'"
    and tab: "map_of (vueComponents stE) p = map_of (vueComponents st') p"
    by blast
  show thesis using that[OF pf] tab vc d by simp
qed

lemma literalApps_stringLiterals [simp]: "literalApps (stringLiterals ss) = ss"
  by (induction ss) (simp_all add: stringLiterals_def)

lemma stringLiterals_no_hole [simp]: "None \<notin> set (stringLiterals ss)"
  by (auto simp: stringLiterals_def)

lemma stringLiterals_all_literal [simp]:
  "filter (\<lambda>e. \<not> isStringLiteral e) (stringLiterals ss) = []"
  by (induction ss) (simp_all add: stringLiterals_def isStringLiteral_def)

lemma stringLiterals_Nil_iff [simp]: "stringLiterals ss = [] \<longleftrightarrow> ss = []"
  by (simp add: stringLiterals_def)

lemma collectApps_no_holes:
  "None \<notin> set elements \<Longrightarrow>
     collectApps ext cfg p elements apps st =
       Completed (apps @ literalApps elements,
         st\<lparr>errors := errors st @
               replicate (length (filter (\<lambda>e. \<not> isStringLiteral e) elements))
                 (FileError (path_relative ext (projectDir cfg) p) msgAppsItems)\<rparr>)"
proof (induction elements arbitrary: apps st)
  case Nil
  show ?case by simp
next
  case (Cons a elements)
  from Cons.prems obtain e where a: "a = Some e" and rest: "None \<notin> set elements"
    by (cases a) auto
  note IH = Cons.IH[OF rest]
  show ?case
  proof (cases e)
    case (Literal l)
    show ?thesis
    proof (cases l)
      case (StringLiteral v)
      with IH[where apps = "apps @ [v]" and st = st] show ?thesis by (simp add: a Literal isStringLiteral_def)
    next
      case OtherLiteral
      with IH[where apps = apps and st = "error ext cfg p msgAppsItems st"] show ?thesis
        by (simp add: a Literal isStringLiteral_def error_def replicate_append_same)
    qed
  next
    case (ObjectExpression ps)
    with IH[where apps = apps and st = "error ext cfg p msgAppsItems st"] show ?thesis
      by (simp add: a isStringLiteral_def error_def replicate_append_same)
  next
    case (ArrayExpression es)
    with IH[where apps = apps and st = "error ext cfg p msgAppsItems st"] show ?thesis
      by (simp add: a isStringLiteral_def error_def replicate_append_same)
  next
    case OtherExpression
    with IH[where apps = apps and st = "error ext cfg p msgAppsItems st"] show ?thesis
      by (simp add: a isStringLiteral_def error_def replicate_append_same)
  qed
qed

lemma collectApps_hole:
  "None \<in> set elements \<Longrightarrow> \<exists>r. collectApps ext cfg p elements apps st = Thrown r"
  by (induction ext cfg p elements apps st rule: collectApps.induct) auto


subsection \<open>What the processing of one file does, case by case\<close>

lemma map_of_update_same [simp]: "map_of (AList.update k v al) k = Some v"
  by (simp add: update_conv')

lemma map_of_delete_same [simp]: "map_of (AList.delete k al) k = None"
  by (simp add: delete_conv')

lemma scriptBlock_None_iff:
  "scriptBlock c = None \<longleftrightarrow>
     (indexOf c ''<script>'' = None \<or> indexOf c ''</script>'' = None \<or>
      (\<exists>s e. indexOf c ''<script>'' = Some s \<and> indexOf c ''</script>'' = Some e \<and> e < s))"
  by (auto simp: scriptBlock_def split: option.splits)

lemma processFile_no_script:
  "scriptBlock c = None \<Longrightarrow>
     processFile ext cfg p c st =
       Completed (error ext cfg p msgNoScript
         (st\<lparr>vueComponents := AList.update p [] (vueComponents st)\<rparr>))"
  by (simp add: processFile_def)

lemma processFile_parse_failure:
  "scriptBlock c = Some script \<Longrightarrow> espree_parse ext script = None \<Longrightarrow>
     processFile ext cfg p c st =
       Completed (st\<lparr>vueComponents := AList.update p [] (vueComponents st)\<rparr>)"
  by (simp add: processFile_def)

lemma processFile_no_info:
  "scriptBlock c = Some script \<Longrightarrow> espree_parse ext script = Some body \<Longrightarrow>
   exportObject body = Some properties \<Longrightarrow> findProp ''info'' properties = None \<Longrightarrow>
     processFile ext cfg p c st =
       Completed (st\<lparr>vueComponents := AList.update p [] (vueComponents st)\<rparr>)"
  by (simp add: processFile_def)

lemma processFile_info:
  "infoProps ext c = Some props \<Longrightarrow>
     processFile ext cfg p c st =
       processInfo ext cfg p props (st\<lparr>vueComponents := AList.update p [] (vueComponents st)\<rparr>)"
  by (auto simp: processFile_def infoProps_def split: option.splits expr.splits)

lemma processFile_without_info:
  "infoProps ext c = None \<Longrightarrow>
     \<exists>st'. processFile ext cfg p c st = Completed st' \<and> map_of (vueComponents st') p = Some []"
  by (auto simp: processFile_def infoProps_def split: option.splits expr.splits)

lemma processPath_keeps:
  assumes "map_of (vueComponents st) p = Some info"
  shows "\<exists>st' info'. processPath ext cfg p props st = Completed st' \<and>
           map_of (vueComponents st') p = Some info' \<and>
           (info' = info \<or> (\<exists>v. info' = AList.update ''path'' (JString v) info))"
  using assms
  by (auto simp: processPath_def split: option.splits expr.splits literal.splits)

lemma processPath_valid:
  "findProp ''path'' props = Some (Literal (StringLiteral v)) \<Longrightarrow> startsWith v ''/'' \<Longrightarrow>
   map_of (vueComponents st) p = Some [] \<Longrightarrow>
     processPath ext cfg p props st =
       Completed (st\<lparr>vueComponents := AList.update p [(''path'', JString v)] (vueComponents st)\<rparr>)"
  by (simp add: processPath_def)

lemma processPath_no_slash:
  "findProp ''path'' props = Some (Literal (StringLiteral v)) \<Longrightarrow> \<not> startsWith v ''/'' \<Longrightarrow>
     processPath ext cfg p props st = Completed (error ext cfg p msgPathSlash st)"
  by (simp add: processPath_def)

lemma processInfo_no_apps:
  "findProp ''apps'' props = None \<or> findProp ''apps'' props = Some (ArrayExpression []) \<Longrightarrow>
     processInfo ext cfg p props st = processPath ext cfg p props st"
  by (auto simp: processInfo_def)

lemma processInfo_apps:
  assumes "findProp ''apps'' props = Some (ArrayExpression elements)"
    and "elements \<noteq> []" and "None \<notin> set elements"
  shows "processInfo ext cfg p props st =
     (if appName cfg \<notin> set (literalApps elements)
      then Completed (st\<lparr>errors := errors st @
               replicate (length (filter (\<lambda>e. \<not> isStringLiteral e) elements))
                 (FileError (path_relative ext (projectDir cfg) p) msgAppsItems),
             vueComponents := AList.delete p (vueComponents st)\<rparr>)
      else processPath ext cfg p props
             (st\<lparr>errors := errors st @
               replicate (length (filter (\<lambda>e. \<not> isStringLiteral e) elements))
                 (FileError (path_relative ext (projectDir cfg) p) msgAppsItems)\<rparr>))"
  using assms by (simp add: processInfo_def collectApps_no_holes[OF assms(3)])

lemma processInfo_hole:
  assumes "findProp ''apps'' props = Some (ArrayExpression elements)"
    and "None \<in> set elements"
  shows "\<exists>st'. processInfo ext cfg p props st = Thrown st'"
proof -
  from collectApps_hole[OF assms(2), of ext cfg p "[]" st]
  obtain r where r: "collectApps ext cfg p elements [] st = Thrown r" by blast
  from assms(2) have "elements \<noteq> []" by auto
  then show ?thesis using assms(1) r by (cases r) (simp add: processInfo_def)
qed

lemma infoApps_props:
  "infoProps ext c = Some props \<Longrightarrow> infoApps ext c = findProp ''apps'' props"
  "infoProps ext c = Some props \<Longrightarrow> infoPath ext c = findProp ''path'' props"
  by (simp_all add: infoApps_def infoPath_def)

lemma infoApps_Some_props:
  "infoApps ext c = Some a \<Longrightarrow> \<exists>props. infoProps ext c = Some props \<and> findProp ''apps'' props = Some a"
  by (auto simp: infoApps_def split: option.splits)

lemma infoPath_Some_props:
  "infoPath ext c = Some a \<Longrightarrow> \<exists>props. infoProps ext c = Some props \<and> findProp ''path'' props = Some a"
  by (auto simp: infoPath_def split: option.splits)

section \<open>Properties of the generation pass\<close>

lemmas demo_defs =
  generateEntries_def demoFiles_def demoExt_def demoConfig_def emptyPlugin_def
  processFile_def scriptBlock_def substring_def processInfo_def processPath_def findProp_def
  exportObject_def isExportDefault_def demoParse_def demoModule_def error_def startsWith_def
  js_get_def codeConfig_def entryPath_def demoJoin_def

lemma demo_pass: "generateEntries demoExt demoConfig demoFiles emptyPlugin = Completed demoResult"
  by (simp add: demo_defs demoResult_def)

lemma demo_distinct: "distinct (map fst demoFiles)"
  by (simp add: demoFiles_def)

lemma demo_inj: "inj_on (path_relative demoExt (projectDir demoConfig)) (fst ` set demoFiles)"
  by (simp add: demoFiles_def demoExt_def demoConfig_def)

lemma tableKeys_map_of: "p \<in> tableKeys t \<longleftrightarrow> map_of t p \<noteq> None"
  by (simp add: tableKeys_def map_of_eq_None_iff)

lemma no_path_not_truthy [simp]: "\<not> truthy (js_get [] ''path'')"
  by (simp add: js_get_def)

text \<open>
  C6. In a pass that completes over files with distinct paths (and distinct relative
  paths), a file whose content has no \<^verbatim>\<open><script>\<close>, no \<^verbatim>\<open></script>\<close>, or has the
  first \<^verbatim>\<open><script>\<close> after the first \<^verbatim>\<open></script>\<close>, is in the table with the empty
  info object, and the errors of the pass about that file are exactly one: the
  "block was not found" error.
\<close>

theorem missing_script_block_one_error:
  assumes pass: "generateEntries ext cfg files st0 = Completed r"
    and mem: "(p, c) \<in> set files"
    and dist: "distinct (map fst files)"
    and inj: "inj_on (path_relative ext (projectDir cfg)) (fst ` set files)"
    and markers: "indexOf c ''<script>'' = None \<or> indexOf c ''</script>'' = None \<or>
      (\<exists>s e. indexOf c ''<script>'' = Some s \<and> indexOf c ''</script>'' = Some e \<and> e < s)"
  shows "map_of (vueComponents r) p = Some [] \<and>
         errorsFor ext cfg p (errors r)
           = [FileError (path_relative ext (projectDir cfg) p) msgNoScript]"
proof -
  from markers have sb: "scriptBlock c = None" by (simp add: scriptBlock_None_iff)
  from pass_file[OF pass mem dist inj] obtain st st' where
    pf: "processFile ext cfg p c st = Completed st'"
    and clean: "errorsFor ext cfg p (errors st) = []"
    and tab: "map_of (vueComponents r) p = map_of (vueComponents st') p"
    and errs: "(\<forall>info. map_of (vueComponents r) p = Some info \<longrightarrow> \<not> truthy (js_get info ''path''))
           \<Longrightarrow> errorsFor ext cfg p (errors r) = errorsFor ext cfg p (errors st')"
    by blast
  from pf processFile_no_script[OF sb, of ext cfg p st]
  have st': "st' = error ext cfg p msgNoScript
                     (st\<lparr>vueComponents := AList.update p [] (vueComponents st)\<rparr>)"
    by simp
  have t: "map_of (vueComponents r) p = Some []" using tab by (simp add: st')
  have e: "errorsFor ext cfg p (errors r) = errorsFor ext cfg p (errors st')"
    by (rule errs) (simp add: t)
  show ?thesis using t e clean by (simp add: st')
qed

theorem missing_script_block_one_error_witness:
  "map_of (vueComponents demoResult) ''/p/src/n.vue'' = Some [] \<and>
   errorsFor demoExt demoConfig ''/p/src/n.vue'' (errors demoResult)
     = [FileError ''src/n.vue'' msgNoScript]"
proof -
  have mem: "(''/p/src/n.vue'', ''<template/>'') \<in> set demoFiles"
    by (simp add: demoFiles_def)
  have markers: "indexOf ''<template/>'' ''<script>'' = None \<or>
      indexOf ''<template/>'' ''</script>'' = None \<or>
      (\<exists>s e. indexOf ''<template/>'' ''<script>'' = Some s \<and>
         indexOf ''<template/>'' ''</script>'' = Some e \<and> e < s)"
    by simp
  from missing_script_block_one_error[OF demo_pass mem demo_distinct demo_inj markers]
  show ?thesis by (simp add: demoExt_def demoConfig_def)
qed

text \<open>
  C4. In a pass that completes, a file whose script region the parser rejects, and a file
  whose default export is an object literal without an \<^verbatim>\<open>info\<close> property, are each in
  the table with the empty info object, and the pass has no error about the file.
\<close>

theorem lenient_parse_failure_and_missing_info:
  assumes pass: "generateEntries ext cfg files st0 = Completed r"
    and mem: "(p, c) \<in> set files"
    and dist: "distinct (map fst files)"
    and inj: "inj_on (path_relative ext (projectDir cfg)) (fst ` set files)"
    and script: "scriptBlock c = Some script"
    and lenient: "espree_parse ext script = None \<or>
      (\<exists>body properties. espree_parse ext script = Some body \<and>
         exportObject body = Some properties \<and> findProp ''info'' properties = None)"
  shows "map_of (vueComponents r) p = Some [] \<and> errorsFor ext cfg p (errors r) = []"
proof -
  from pass_file[OF pass mem dist inj] obtain st st' where
    pf: "processFile ext cfg p c st = Completed st'"
    and clean: "errorsFor ext cfg p (errors st) = []"
    and tab: "map_of (vueComponents r) p = map_of (vueComponents st') p"
    and errs: "(\<forall>info. map_of (vueComponents r) p = Some info \<longrightarrow> \<not> truthy (js_get info ''path''))
           \<Longrightarrow> errorsFor ext cfg p (errors r) = errorsFor ext cfg p (errors st')"
    by blast
  have "processFile ext cfg p c st =
          Completed (st\<lparr>vueComponents := AList.update p [] (vueComponents st)\<rparr>)"
    using lenient script
    by (auto simp: processFile_parse_failure processFile_no_info)
  with pf have st': "st' = st\<lparr>vueComponents := AList.update p [] (vueComponents st)\<rparr>"
    by simp
  have t: "map_of (vueComponents r) p = Some []" using tab by (simp add: st')
  have e: "errorsFor ext cfg p (errors r) = errorsFor ext cfg p (errors st')"
    by (rule errs) (simp add: t)
  show ?thesis using t e clean by (simp add: st')
qed

theorem lenient_parse_failure_and_missing_info_witness:
  "(map_of (vueComponents demoResult) ''/p/src/s.vue'' = Some [] \<and>
    errorsFor demoExt demoConfig ''/p/src/s.vue'' (errors demoResult) = []) \<and>
   (map_of (vueComponents demoResult) ''/p/src/e.vue'' = Some [] \<and>
    errorsFor demoExt demoConfig ''/p/src/e.vue'' (errors demoResult) = [])"
proof -
  have mem: "(''/p/src/s.vue'', ''<script>?</script>'') \<in> set demoFiles"
    "(''/p/src/e.vue'', ''<script>E</script>'') \<in> set demoFiles"
    by (simp_all add: demoFiles_def)
  have script: "scriptBlock ''<script>?</script>'' = Some ''?''"
    "scriptBlock ''<script>E</script>'' = Some ''E''"
    by (simp_all add: scriptBlock_def substring_def)
  have l1: "espree_parse demoExt ''?'' = None \<or>
      (\<exists>body properties. espree_parse demoExt ''?'' = Some body \<and>
         exportObject body = Some properties \<and> findProp ''info'' properties = None)"
    by (simp add: demoExt_def demoParse_def)
  have l2: "espree_parse demoExt ''E'' = None \<or>
      (\<exists>body properties. espree_parse demoExt ''E'' = Some body \<and>
         exportObject body = Some properties \<and> findProp ''info'' properties = None)"
    by (simp add: demoExt_def demoParse_def exportObject_def isExportDefault_def findProp_def)
  from lenient_parse_failure_and_missing_info[OF demo_pass mem(1) demo_distinct demo_inj script(1) l1]
       lenient_parse_failure_and_missing_info[OF demo_pass mem(2) demo_distinct demo_inj script(2) l2]
  show ?thesis by simp
qed

lemma processInfo_keeps_present:
  assumes "findProp ''apps'' props = None \<or> findProp ''apps'' props = Some (ArrayExpression [])"
    and "map_of (vueComponents st) p = Some []"
  shows "\<exists>st'. processInfo ext cfg p props st = Completed st' \<and> map_of (vueComponents st') p \<noteq> None"
  using processPath_keeps[OF assms(2), of ext cfg props] processInfo_no_apps[OF assms(1), of ext cfg p st]
  by auto

text \<open>
  C3. In a pass that completes: a file with no \<^verbatim>\<open>info.apps\<close>, or with the empty array
  literal, has its key in the table, whatever the application name is; a file whose
  \<^verbatim>\<open>info.apps\<close> is a non-empty array of string literals \<open>ss\<close> has its key in the
  table if and only if the application name is in \<open>ss\<close>, and when it is not, the table
  has no entry at all under the key.
\<close>

theorem apps_membership_decides_presence:
  assumes pass: "generateEntries ext cfg files st0 = Completed r"
    and mem: "(p, c) \<in> set files"
    and dist: "distinct (map fst files)"
  shows "(infoApps ext c = None \<or> infoApps ext c = Some (ArrayExpression [])
            \<longrightarrow> p \<in> tableKeys (vueComponents r)) \<and>
         (ss \<noteq> [] \<and> infoApps ext c = Some (ArrayExpression (stringLiterals ss))
            \<longrightarrow> (p \<in> tableKeys (vueComponents r) \<longleftrightarrow> appName cfg \<in> set ss) \<and>
                (appName cfg \<notin> set ss \<longrightarrow> map_of (vueComponents r) p = None))"
proof -
  from pass_file_table[OF pass mem dist] obtain st st' where
    pf: "processFile ext cfg p c st = Completed st'"
    and tab: "map_of (vueComponents r) p = map_of (vueComponents st') p"
    by blast
  define st1 where "st1 = st\<lparr>vueComponents := AList.update p [] (vueComponents st)\<rparr>"
  have st1: "map_of (vueComponents st1) p = Some []" by (simp add: st1_def)
  have absent: "p \<in> tableKeys (vueComponents r)"
    if a: "infoApps ext c = None \<or> infoApps ext c = Some (ArrayExpression [])"
  proof (cases "infoProps ext c")
    case None
    from processFile_without_info[OF None, of cfg p st] pf tab
    show ?thesis by (auto simp: tableKeys_map_of)
  next
    case (Some props)
    from a have "findProp ''apps'' props = None \<or> findProp ''apps'' props = Some (ArrayExpression [])"
      by (simp add: infoApps_props[OF Some])
    from processInfo_keeps_present[OF this st1, of ext cfg] pf tab
    show ?thesis by (auto simp: processFile_info[OF Some] st1_def tableKeys_map_of)
  qed
  have listed: "(p \<in> tableKeys (vueComponents r) \<longleftrightarrow> appName cfg \<in> set ss) \<and>
                (appName cfg \<notin> set ss \<longrightarrow> map_of (vueComponents r) p = None)"
    if ne: "ss \<noteq> []" and a: "infoApps ext c = Some (ArrayExpression (stringLiterals ss))"
  proof -
    from infoApps_Some_props[OF a] obtain props where
      props: "infoProps ext c = Some props"
      and apps: "findProp ''apps'' props = Some (ArrayExpression (stringLiterals ss))"
      by blast
    have ne': "stringLiterals ss \<noteq> []" using ne by simp
    note pi = processInfo_apps[OF apps ne' stringLiterals_no_hole, of ext cfg p st1]
    show ?thesis
    proof (cases "appName cfg \<in> set ss")
      case False
      with pi pf have "map_of (vueComponents st') p = None"
        by (auto simp: processFile_info[OF props] st1_def[symmetric])
      with tab False show ?thesis by (simp add: tableKeys_map_of)
    next
      case True
      have "map_of (vueComponents (st1\<lparr>errors := errors st1 @ []\<rparr>)) p = Some []"
        using st1 by simp
      from processPath_keeps[OF this, of ext cfg props] pi pf True
      have "map_of (vueComponents st') p \<noteq> None"
        by (auto simp: processFile_info[OF props] st1_def[symmetric])
      with tab True show ?thesis by (simp add: tableKeys_map_of)
    qed
  qed
  from absent listed show ?thesis by blast
qed

theorem apps_membership_decides_presence_witness:
  "''/p/src/a.vue'' \<in> tableKeys (vueComponents demoResult) \<and>
   ''/p/src/b.vue'' \<in> tableKeys (vueComponents demoResult) \<and>
   ''/p/src/d.vue'' \<notin> tableKeys (vueComponents demoResult) \<and>
   map_of (vueComponents demoResult) ''/p/src/d.vue'' = None"
proof -
  have mem: "(''/p/src/a.vue'', ''<template/><script>A</script>'') \<in> set demoFiles"
    "(''/p/src/b.vue'', ''<script>B</script>'') \<in> set demoFiles"
    "(''/p/src/d.vue'', ''<script>D</script>'') \<in> set demoFiles"
    by (simp_all add: demoFiles_def)
  have a: "infoApps demoExt ''<template/><script>A</script>'' = None"
    by (simp add: infoApps_def infoProps_def scriptBlock_def substring_def demoExt_def
        demoParse_def demoModule_def exportObject_def isExportDefault_def findProp_def)
  have b: "infoApps demoExt ''<script>B</script>'' = Some (ArrayExpression (stringLiterals [''web'']))"
    by (simp add: infoApps_def infoProps_def scriptBlock_def substring_def demoExt_def
        demoParse_def demoModule_def exportObject_def isExportDefault_def findProp_def
        stringLiterals_def)
  have d: "infoApps demoExt ''<script>D</script>'' = Some (ArrayExpression (stringLiterals [''other'']))"
    by (simp add: infoApps_def infoProps_def scriptBlock_def substring_def demoExt_def
        demoParse_def demoModule_def exportObject_def isExportDefault_def findProp_def
        stringLiterals_def)
  have app: "appName demoConfig = ''web''" by (simp add: demoConfig_def)
  from apps_membership_decides_presence[OF demo_pass mem(1) demo_distinct, where ss = "[]"]
       apps_membership_decides_presence[OF demo_pass mem(2) demo_distinct, where ss = "[''web'']"]
       apps_membership_decides_presence[OF demo_pass mem(3) demo_distinct, where ss = "[''other'']"]
       a b d app
  show ?thesis by simp
qed

lemma pagePathsOf_delete_no_path:
  assumes "\<forall>info. (p, info) \<in> set t \<longrightarrow> \<not> truthy (js_get info ''path'')"
  shows "pagePathsOf ext cfg (AList.delete p t) = pagePathsOf ext cfg t"
  using assms
proof (induction t)
  case Nil
  show ?case by simp
next
  case (Cons x t)
  obtain q info where x: "x = (q, info)" by (cases x)
  from Cons.prems have rest: "\<forall>info. (p, info) \<in> set t \<longrightarrow> \<not> truthy (js_get info ''path'')"
    by auto
  show ?case
  proof (cases "q = p")
    case True
    with Cons.prems have "\<not> truthy (js_get info ''path'')" by (auto simp: x)
    with Cons.IH[OF rest] True show ?thesis by (simp add: x pagePaths_Cons)
  next
    case False
    with Cons.IH[OF rest] show ?thesis by (simp add: x pagePaths_Cons)
  qed
qed

lemma errors_append_Nil [simp]: "(st::plugin)\<lparr>errors := errors st @ []\<rparr> = st"
  by simp

text \<open>The state in which \<open>processFile\<close> reaches the lookup of \<^verbatim>\<open>path\<close>, for a file
  whose \<^verbatim>\<open>info.apps\<close> does not remove it and adds no error.\<close>

lemma processFile_reaches_path:
  assumes apps: "infoApps ext c = None \<or>
      (\<exists>ss. infoApps ext c = Some (ArrayExpression (stringLiterals ss)) \<and>
            (ss = [] \<or> appName cfg \<in> set ss))"
    and props: "infoProps ext c = Some props"
  shows "processFile ext cfg p c st =
           processPath ext cfg p props (st\<lparr>vueComponents := AList.update p [] (vueComponents st)\<rparr>)"
proof -
  define st1 where "st1 = st\<lparr>vueComponents := AList.update p [] (vueComponents st)\<rparr>"
  from apps consider
    (none) "findProp ''apps'' props = None \<or> findProp ''apps'' props = Some (ArrayExpression [])"
    | (listed) ss where "ss \<noteq> []" "findProp ''apps'' props = Some (ArrayExpression (stringLiterals ss))"
        "appName cfg \<in> set ss"
    by (cases "infoApps ext c") (auto simp: infoApps_props[OF props] stringLiterals_def)
  then have "processInfo ext cfg p props st1 = processPath ext cfg p props st1"
  proof cases
    case none
    then show ?thesis by (rule processInfo_no_apps)
  next
    case listed
    have ne: "stringLiterals ss \<noteq> []" using listed(1) by simp
    from processInfo_apps[OF listed(2) ne stringLiterals_no_hole, of ext cfg p st1] listed(3)
    show ?thesis by simp
  qed
  then show ?thesis by (simp add: processFile_info[OF props] st1_def)
qed

text \<open>
  C5, as amended. In a pass that completes, a file whose \<^verbatim>\<open>info.apps\<close> is absent, the
  empty array, or an array of string literals that contains the application name, and
  whose \<^verbatim>\<open>info.path\<close> is a string literal that does not start with \<^verbatim>\<open>/\<close>, is in the
  table with the empty info object; the errors of the pass about it are exactly the
  "must start with '/'" error; and the compiled page paths are those of the table without
  the file.
\<close>

theorem path_without_slash_one_error:
  assumes pass: "generateEntries ext cfg files st0 = Completed r"
    and mem: "(p, c) \<in> set files"
    and dist: "distinct (map fst files)"
    and inj: "inj_on (path_relative ext (projectDir cfg)) (fst ` set files)"
    and apps: "infoApps ext c = None \<or>
      (\<exists>ss. infoApps ext c = Some (ArrayExpression (stringLiterals ss)) \<and>
            (ss = [] \<or> appName cfg \<in> set ss))"
    and path: "infoPath ext c = Some (Literal (StringLiteral v))"
    and slash: "\<not> startsWith v ''/''"
  shows "map_of (vueComponents r) p = Some [] \<and>
         errorsFor ext cfg p (errors r)
           = [FileError (path_relative ext (projectDir cfg) p) msgPathSlash] \<and>
         pagePathsOf ext cfg (AList.delete p (vueComponents r))
           = pagePathsOf ext cfg (vueComponents r)"
proof -
  from infoPath_Some_props[OF path] obtain props where
    props: "infoProps ext c = Some props"
    and pp: "findProp ''path'' props = Some (Literal (StringLiteral v))"
    by blast
  from pass_file[OF pass mem dist inj] obtain st st' where
    pf: "processFile ext cfg p c st = Completed st'"
    and clean: "errorsFor ext cfg p (errors st) = []"
    and tab: "map_of (vueComponents r) p = map_of (vueComponents st') p"
    and errs: "(\<forall>info. map_of (vueComponents r) p = Some info \<longrightarrow> \<not> truthy (js_get info ''path''))
           \<Longrightarrow> errorsFor ext cfg p (errors r) = errorsFor ext cfg p (errors st')"
    and d: "distinct (map fst (vueComponents r))"
    by blast
  from pf processFile_reaches_path[OF apps props, of p st]
    processPath_no_slash[OF pp slash, of ext cfg p
      "st\<lparr>vueComponents := AList.update p [] (vueComponents st)\<rparr>"]
  have st': "st' = error ext cfg p msgPathSlash
                     (st\<lparr>vueComponents := AList.update p [] (vueComponents st)\<rparr>)"
    by simp
  have t: "map_of (vueComponents r) p = Some []" using tab by (simp add: st')
  have e: "errorsFor ext cfg p (errors r) = errorsFor ext cfg p (errors st')"
    by (rule errs) (simp add: t)
  have "\<not> truthy (js_get info ''path'')" if "(p, info) \<in> set (vueComponents r)" for info
  proof -
    from d that have "map_of (vueComponents r) p = Some info" by simp
    with t show ?thesis by simp
  qed
  then have "\<forall>info. (p, info) \<in> set (vueComponents r) \<longrightarrow> \<not> truthy (js_get info ''path'')"
    by blast
  then have routes: "pagePathsOf ext cfg (AList.delete p (vueComponents r))
           = pagePathsOf ext cfg (vueComponents r)"
    by (rule pagePathsOf_delete_no_path)
  show ?thesis using t e clean routes by (simp add: st')
qed

lemma demo_infoProps:
  "infoProps demoExt ''<script>C</script>'' = Some [(Identifier ''path'', Literal (StringLiteral ''foo''))]"
  "infoProps demoExt ''<script>B</script>'' =
     Some [(Identifier ''apps'', ArrayExpression [Some (Literal (StringLiteral ''web''))]),
           (Identifier ''path'', Literal (StringLiteral ''/b''))]"
  by (simp_all add: infoProps_def scriptBlock_def substring_def demoExt_def
        demoParse_def demoModule_def exportObject_def isExportDefault_def findProp_def)

theorem path_without_slash_one_error_witness:
  "map_of (vueComponents demoResult) ''/p/src/c.vue'' = Some [] \<and>
   errorsFor demoExt demoConfig ''/p/src/c.vue'' (errors demoResult)
     = [FileError ''src/c.vue'' msgPathSlash] \<and>
   pagePathsOf demoExt demoConfig (AList.delete ''/p/src/c.vue'' (vueComponents demoResult))
     = pagePathsOf demoExt demoConfig (vueComponents demoResult)"
proof -
  have mem: "(''/p/src/c.vue'', ''<script>C</script>'') \<in> set demoFiles"
    by (simp add: demoFiles_def)
  have apps: "infoApps demoExt ''<script>C</script>'' = None \<or>
      (\<exists>ss. infoApps demoExt ''<script>C</script>'' = Some (ArrayExpression (stringLiterals ss)) \<and>
            (ss = [] \<or> appName demoConfig \<in> set ss))"
    by (simp add: infoApps_def demo_infoProps findProp_def)
  have path: "infoPath demoExt ''<script>C</script>'' = Some (Literal (StringLiteral ''foo''))"
    by (simp add: infoPath_def demo_infoProps findProp_def)
  have slash: "\<not> startsWith ''foo'' ''/''" by (simp add: startsWith_def)
  from path_without_slash_one_error[OF demo_pass mem demo_distinct demo_inj apps path slash]
  show ?thesis by (simp add: demoExt_def demoConfig_def)
qed

text \<open>
  C5 as stated fails: a file whose \<^verbatim>\<open>info.apps\<close> names another application is removed
  before its \<^verbatim>\<open>info.path\<close> is looked at, so \<^verbatim>\<open>path: 'foo'\<close> records no error and the
  key is not in the table.
\<close>

theorem excluded_component_path_not_checked:
  "errors (outcome_state (generateEntries demoExt demoConfig
      [(''/p/src/d.vue'', ''<script>D</script>'')] emptyPlugin)) = [] \<and>
   map_of (vueComponents (outcome_state (generateEntries demoExt demoConfig
      [(''/p/src/d.vue'', ''<script>D</script>'')] emptyPlugin))) ''/p/src/d.vue'' = None \<and>
   infoPath demoExt ''<script>D</script>'' = Some (Literal (StringLiteral ''foo'')) \<and>
   \<not> startsWith ''foo'' ''/''"
  by (simp add: demo_defs infoPath_def infoProps_def)

text \<open>
  C2, as amended. For a file whose \<^verbatim>\<open>info.apps\<close> is an array of string literals \<open>ss\<close>
  that contains the application name, the loop collects exactly \<open>ss\<close> into its local
  list and records no error; in a pass that completes, the file's entry in the table has
  no \<^verbatim>\<open>apps\<close> field: it is the empty object or holds \<^verbatim>\<open>path\<close> alone.
\<close>

theorem apps_used_only_for_membership:
  assumes pass: "generateEntries ext cfg files st0 = Completed r"
    and mem: "(p, c) \<in> set files"
    and dist: "distinct (map fst files)"
    and apps: "infoApps ext c = Some (ArrayExpression (stringLiterals ss))"
    and member: "appName cfg \<in> set ss"
  shows "collectApps ext cfg p (stringLiterals ss) [] st = Completed (ss, st) \<and>
         (\<exists>info. map_of (vueComponents r) p = Some info \<and> map_of info ''apps'' = None \<and>
            (info = [] \<or> (\<exists>v. info = [(''path'', JString v)])))"
proof -
  have local: "collectApps ext cfg p (stringLiterals ss) [] st = Completed (ss, st)"
    using collectApps_no_holes[OF stringLiterals_no_hole, of ext cfg p ss "[]" st] by simp
  from infoApps_Some_props[OF apps] obtain props where
    props: "infoProps ext c = Some props" by blast
  from pass_file_table[OF pass mem dist] obtain st1 st' where
    pf: "processFile ext cfg p c st1 = Completed st'"
    and tab: "map_of (vueComponents r) p = map_of (vueComponents st') p"
    by blast
  have reach: "infoApps ext c = None \<or>
      (\<exists>ss. infoApps ext c = Some (ArrayExpression (stringLiterals ss)) \<and>
            (ss = [] \<or> appName cfg \<in> set ss))"
    using apps member by blast
  have start: "map_of (vueComponents (st1\<lparr>vueComponents := AList.update p [] (vueComponents st1)\<rparr>)) p
                 = Some []"
    by simp
  from processPath_keeps[OF start, of ext cfg props] pf
    processFile_reaches_path[OF reach props, of p st1]
  obtain info where info: "map_of (vueComponents st') p = Some info"
    "info = [] \<or> (\<exists>v. info = AList.update ''path'' (JString v) [])"
    by auto
  from info(2) have shape: "info = [] \<or> (\<exists>v. info = [(''path'', JString v)])" by simp
  then have "map_of info ''apps'' = None" by auto
  with info(1) shape tab local show ?thesis by simp
qed

lemma demo_infoApps_b:
  "infoApps demoExt ''<script>B</script>'' = Some (ArrayExpression (stringLiterals [''web'']))"
  by (simp add: infoApps_def demo_infoProps findProp_def stringLiterals_def)

theorem apps_used_only_for_membership_witness:
  "collectApps demoExt demoConfig ''/p/src/b.vue'' (stringLiterals [''web'']) [] emptyPlugin
     = Completed ([''web''], emptyPlugin) \<and>
   (\<exists>info. map_of (vueComponents demoResult) ''/p/src/b.vue'' = Some info \<and>
      map_of info ''apps'' = None \<and> (info = [] \<or> (\<exists>v. info = [(''path'', JString v)])))"
proof -
  have mem: "(''/p/src/b.vue'', ''<script>B</script>'') \<in> set demoFiles"
    by (simp add: demoFiles_def)
  have member: "appName demoConfig \<in> set [''web'']" by (simp add: demoConfig_def)
  from apps_used_only_for_membership[OF demo_pass mem demo_distinct demo_infoApps_b member]
  show ?thesis .
qed

text \<open>
  C2 as stated fails: the list is local to the pass. For \<^verbatim>\<open>apps: ['web']\<close> under the
  application \<^verbatim>\<open>web\<close> the entry in the table is \<^verbatim>\<open>{path: '/b'}\<close>, whose \<^verbatim>\<open>apps\<close> is
  undefined.
\<close>

theorem table_entry_has_no_apps_field:
  "generateEntries demoExt demoConfig demoFiles emptyPlugin = Completed demoResult \<and>
   infoApps demoExt ''<script>B</script>'' = Some (ArrayExpression (stringLiterals [''web''])) \<and>
   appName demoConfig = ''web'' \<and>
   map_of (vueComponents demoResult) ''/p/src/b.vue'' = Some [(''path'', JString ''/b'')] \<and>
   js_get [(''path'', JString ''/b'')] ''apps'' = JUndefined \<and>
   js_get [(''path'', JString ''/b'')] ''apps'' \<noteq> JArray [JString ''web'']"
  using demo_pass demo_infoApps_b
  by (simp add: demoConfig_def demoResult_def js_get_def)

lemma startsWith_slash_truthy:
  "startsWith v ''/'' \<Longrightarrow> truthy (js_get [(''path'', JString v)] ''path'')"
  by (auto simp: startsWith_def js_get_def)

lemma generateEntries_web_backendData:
  assumes pass: "generateEntries ext cfg files st0 = Completed r"
    and web: "type cfg = ''web''"
  shows "backendData r =
      Some \<lparr>bd_env = env cfg, bd_appName = appName cfg,
            bd_pagePaths = pagePathsOf ext cfg (vueComponents r),
            bd_entry = entryPath ext cfg (backendEntry cfg),
            bd_conf = codeConfig cfg\<rparr>"
proof (rule generateEntries_Completed[OF pass])
  fix stE
  assume "vueComponents r = vueComponents stE"
    and "backendData r =
           (if type cfg = ''web'' then
              Some \<lparr>bd_env = env cfg, bd_appName = appName cfg,
                    bd_pagePaths = pagePathsOf ext cfg (vueComponents stE),
                    bd_entry = entryPath ext cfg (backendEntry cfg),
                    bd_conf = codeConfig cfg\<rparr>
            else None)"
  then show ?thesis using web by simp
qed

text \<open>
  C1, as amended. In a pass that completes for an application of type \<^verbatim>\<open>web\<close>: a file
  whose \<^verbatim>\<open>info.apps\<close> is absent or an array literal without holes that is empty or
  contains the application name as a string literal, whose \<^verbatim>\<open>info.path\<close> is a string
  literal starting with \<^verbatim>\<open>/\<close>, and whose path compiles to \<open>re\<close> under the project's
  case-sensitivity setting, occurs once in the table, and the page paths handed to the
  backend template are those of the entries before it, then \<open>re\<close>, then those of the
  entries after it.
\<close>

theorem web_pagePaths_one_entry_per_component:
  assumes pass: "generateEntries ext cfg files st0 = Completed r"
    and web: "type cfg = ''web''"
    and mem: "(p, c) \<in> set files"
    and dist: "distinct (map fst files)"
    and apps: "infoApps ext c = None \<or>
      (\<exists>elements. infoApps ext c = Some (ArrayExpression elements) \<and> None \<notin> set elements \<and>
         (elements = [] \<or> appName cfg \<in> set (literalApps elements)))"
    and path: "infoPath ext c = Some (Literal (StringLiteral v))"
    and slash: "startsWith v ''/''"
    and compiles: "pathToRegexp ext (JString v) (caseSensitive cfg) = Inr re"
  shows "\<exists>pre post d.
           vueComponents r = pre @ (p, [(''path'', JString v)]) # post \<and>
           p \<notin> tableKeys pre \<and> p \<notin> tableKeys post \<and>
           backendData r = Some d \<and>
           bd_pagePaths d = pagePathsOf ext cfg pre @ [re] @ pagePathsOf ext cfg post"
proof -
  from infoPath_Some_props[OF path] obtain props where
    props: "infoProps ext c = Some props"
    and pp: "findProp ''path'' props = Some (Literal (StringLiteral v))"
    by blast
  from pass_file_table[OF pass mem dist] obtain st st' where
    pf: "processFile ext cfg p c st = Completed st'"
    and tab: "map_of (vueComponents r) p = map_of (vueComponents st') p"
    and d: "distinct (map fst (vueComponents r))"
    by blast
  define st1 where "st1 = st\<lparr>vueComponents := AList.update p [] (vueComponents st)\<rparr>"
  have "\<exists>st2. processInfo ext cfg p props st1 = processPath ext cfg p props st2 \<and>
          map_of (vueComponents st2) p = Some []"
  proof -
    from apps consider
      (none) "findProp ''apps'' props = None \<or> findProp ''apps'' props = Some (ArrayExpression [])"
      | (listed) elements where "elements \<noteq> []"
          "findProp ''apps'' props = Some (ArrayExpression elements)"
          "None \<notin> set elements" "appName cfg \<in> set (literalApps elements)"
      by (cases "infoApps ext c") (auto simp: infoApps_props[OF props])
    then show ?thesis
    proof cases
      case none
      have "processInfo ext cfg p props st1 = processPath ext cfg p props st1"
        using none by (rule processInfo_no_apps)
      moreover have "map_of (vueComponents st1) p = Some []" by (simp add: st1_def)
      ultimately show ?thesis by blast
    next
      case listed
      define st2 where "st2 = st1\<lparr>errors := errors st1 @
               replicate (length (filter (\<lambda>e. \<not> isStringLiteral e) elements))
                 (FileError (path_relative ext (projectDir cfg) p) msgAppsItems)\<rparr>"
      have "processInfo ext cfg p props st1 = processPath ext cfg p props st2"
        unfolding st2_def
        using processInfo_apps[OF listed(2) listed(1) listed(3), of ext cfg p st1] listed(4)
        by simp
      moreover have "map_of (vueComponents st2) p = Some []" by (simp add: st2_def st1_def)
      ultimately show ?thesis by blast
    qed
  qed
  then obtain st2 where
    pi: "processInfo ext cfg p props st1 = processPath ext cfg p props st2"
    and st2: "map_of (vueComponents st2) p = Some []"
    by blast
  from pf pi processPath_valid[OF pp slash st2, of ext cfg]
  have "map_of (vueComponents st') p = Some [(''path'', JString v)]"
    by (auto simp: processFile_info[OF props] st1_def[symmetric])
  with tab have entry: "map_of (vueComponents r) p = Some [(''path'', JString v)]" by simp
  then have "(p, [(''path'', JString v)]) \<in> set (vueComponents r)" by (rule map_of_SomeD)
  then obtain pre post where
    split: "vueComponents r = pre @ (p, [(''path'', JString v)]) # post"
    by (auto dest: split_list)
  from d have keys: "p \<notin> tableKeys pre" "p \<notin> tableKeys post"
    by (auto simp: split tableKeys_def)
  have routes: "pagePathsOf ext cfg (vueComponents r)
                  = pagePathsOf ext cfg pre @ [re] @ pagePathsOf ext cfg post"
  proof -
    have get: "js_get [(''path'', JString v)] ''path'' = JString v" by (simp add: js_get_def)
    show ?thesis
      using startsWith_slash_truthy[OF slash] compiles
      by (simp add: split pagePathsOf_append pagePaths_Cons get)
  qed
  note data = generateEntries_web_backendData[OF pass web]
  show ?thesis
    apply (rule exI[of _ pre])
    apply (rule exI[of _ post])
    apply (rule exI[of _ "\<lparr>bd_env = env cfg, bd_appName = appName cfg,
            bd_pagePaths = pagePathsOf ext cfg (vueComponents r),
            bd_entry = entryPath ext cfg (backendEntry cfg),
            bd_conf = codeConfig cfg\<rparr>"])
    using split keys data routes apply simp
    done
qed


theorem web_pagePaths_one_entry_per_component_witness:
  "\<exists>pre post d.
     vueComponents demoResult = pre @ (''/p/src/a.vue'', [(''path'', JString ''/home'')]) # post \<and>
     ''/p/src/a.vue'' \<notin> tableKeys pre \<and> ''/p/src/a.vue'' \<notin> tableKeys post \<and>
     backendData demoResult = Some d \<and>
     bd_pagePaths d = pagePathsOf demoExt demoConfig pre @ [''/^/home$/i'']
                        @ pagePathsOf demoExt demoConfig post"
proof -
  have web: "type demoConfig = ''web''" by (simp add: demoConfig_def)
  have mem: "(''/p/src/a.vue'', ''<template/><script>A</script>'') \<in> set demoFiles"
    by (simp add: demoFiles_def)
  have props: "infoProps demoExt ''<template/><script>A</script>''
                 = Some [(Identifier ''path'', Literal (StringLiteral ''/home''))]"
    by (simp add: infoProps_def scriptBlock_def substring_def demoExt_def
        demoParse_def demoModule_def exportObject_def isExportDefault_def findProp_def)
  have apps: "infoApps demoExt ''<template/><script>A</script>'' = None \<or>
      (\<exists>elements. infoApps demoExt ''<template/><script>A</script>'' = Some (ArrayExpression elements) \<and>
         None \<notin> set elements \<and>
         (elements = [] \<or> appName demoConfig \<in> set (literalApps elements)))"
    by (simp add: infoApps_def props findProp_def)
  have path: "infoPath demoExt ''<template/><script>A</script>''
                = Some (Literal (StringLiteral ''/home''))"
    by (simp add: infoPath_def props findProp_def)
  have slash: "startsWith ''/home'' ''/''" by (simp add: startsWith_def)
  have compiles: "pathToRegexp demoExt (JString ''/home'') (caseSensitive demoConfig)
                    = Inr ''/^/home$/i''"
    by (simp add: demoExt_def demoConfig_def)
  from web_pagePaths_one_entry_per_component
         [OF demo_pass web mem demo_distinct apps path slash compiles]
  show ?thesis .
qed

text \<open>
  C1 as stated fails: for an application that is not of type \<^verbatim>\<open>web\<close> no page path is
  compiled at all. The pass over one active component with the valid path \<^verbatim>\<open>/home\<close>
  renders the frontend entry only.
\<close>

theorem no_page_paths_for_other_types:
  "generateEntries demoExt (demoConfig\<lparr>type := ''mobile''\<rparr>)
      [(''/p/src/a.vue'', ''<template/><script>A</script>'')] emptyPlugin =
     Completed
       \<lparr>vueComponents = [(''/p/src/a.vue'', [(''path'', JString ''/home'')])],
        errors = [],
        entries = [(''frontend'', FrontendTemplate
           \<lparr>fd_vueComponents = [(''/p/src/a.vue'', [(''path'', JString ''/home'')])],
            fd_entry = JUndefined, fd_caseSensitive = False\<rparr>)],
        entryFiles = [(''/t/frontend-entry.js'', ''frontend'')]\<rparr> \<and>
   backendData (outcome_state (generateEntries demoExt (demoConfig\<lparr>type := ''mobile''\<rparr>)
      [(''/p/src/a.vue'', ''<template/><script>A</script>'')] emptyPlugin)) = None"
  by (simp add: demo_defs backendData_def)

subsection \<open>An array of applications without string literals\<close>

lemma literalApps_none:
  "\<forall>e \<in> set elements. \<not> isStringLiteral e \<Longrightarrow> literalApps elements = []"
proof (induction elements)
  case Nil
  show ?case by simp
next
  case (Cons a elements)
  then have rest: "literalApps elements = []" and a: "\<not> isStringLiteral a" by simp_all
  show ?case
  proof (cases a)
    case None
    with rest show ?thesis by simp
  next
    case (Some e)
    show ?thesis
    proof (cases e)
      case (Literal l)
      with a rest Some show ?thesis by (cases l) (simp_all add: isStringLiteral_def)
    qed (use rest Some in simp_all)
  qed
qed

text \<open>
  Without holes, an array in which no element is a string literal removes the component
  for every application name and records one error for each element.
\<close>

lemma apps_without_string_literals_removed:
  assumes pass: "generateEntries ext cfg files st0 = Completed r"
    and mem: "(p, c) \<in> set files"
    and dist: "distinct (map fst files)"
    and inj: "inj_on (path_relative ext (projectDir cfg)) (fst ` set files)"
    and apps: "infoApps ext c = Some (ArrayExpression elements)"
    and ne: "elements \<noteq> []"
    and holes: "None \<notin> set elements"
    and none: "\<forall>e \<in> set elements. \<not> isStringLiteral e"
  shows "map_of (vueComponents r) p = None \<and>
         errorsFor ext cfg p (errors r)
           = replicate (length elements)
               (FileError (path_relative ext (projectDir cfg) p) msgAppsItems)"
proof -
  from infoApps_Some_props[OF apps] obtain props where
    props: "infoProps ext c = Some props"
    and ap: "findProp ''apps'' props = Some (ArrayExpression elements)"
    by blast
  from pass_file[OF pass mem dist inj] obtain st st' where
    pf: "processFile ext cfg p c st = Completed st'"
    and clean: "errorsFor ext cfg p (errors st) = []"
    and tab: "map_of (vueComponents r) p = map_of (vueComponents st') p"
    and errs: "(\<forall>info. map_of (vueComponents r) p = Some info \<longrightarrow> \<not> truthy (js_get info ''path''))
           \<Longrightarrow> errorsFor ext cfg p (errors r) = errorsFor ext cfg p (errors st')"
    by blast
  have all: "filter (\<lambda>e. \<not> isStringLiteral e) elements = elements"
    using none by (simp add: filter_id_conv)
  define st1 where "st1 = st\<lparr>vueComponents := AList.update p [] (vueComponents st)\<rparr>"
  from processInfo_apps[OF ap ne holes, of ext cfg p st1] pf
  have st': "st' = st1\<lparr>errors := errors st1 @ replicate (length elements)
                 (FileError (path_relative ext (projectDir cfg) p) msgAppsItems),
               vueComponents := AList.delete p (vueComponents st1)\<rparr>"
    by (simp add: processFile_info[OF props] st1_def[symmetric] literalApps_none[OF none] all)
  have t: "map_of (vueComponents r) p = None" using tab by (simp add: st')
  have e: "errorsFor ext cfg p (errors r) = errorsFor ext cfg p (errors st')"
    by (rule errs) (simp add: t)
  have own: "errorsFor ext cfg p (replicate n (FileError (path_relative ext (projectDir cfg) p) m))
               = replicate n (FileError (path_relative ext (projectDir cfg) p) m)" for n m
    by (simp add: errorsFor_def aboutFile_def)
  show ?thesis using t e clean by (simp add: st' st1_def own)
qed

text \<open>
  C10 at the input \<^verbatim>\<open>info: {apps: [,]}\<close>: the array has one element, a hole, and no
  string literal. The pass does not remove the component and records no error: reading
  \<^verbatim>\<open>appElem.type\<close> throws, the pass is left with the file's key still in the table and
  no entry is rendered.
\<close>

theorem hole_in_apps_throws:
  "infoApps demoExt ''<script>G</script>'' = Some (ArrayExpression [None]) \<and>
   generateEntries demoExt demoConfig [(''/p/src/g.vue'', ''<script>G</script>'')] emptyPlugin =
     Thrown \<lparr>vueComponents = [(''/p/src/g.vue'', [])], errors = [], entries = [],
             entryFiles = []\<rparr>"
  by (simp add: demo_defs infoApps_def infoProps_def)

subsection \<open>What the pass reads of the configuration\<close>

lemma error_cfg:
  "projectDir c1 = projectDir c2 \<Longrightarrow> error ext c1 = error ext c2"
  by (intro ext) (simp add: error_def)

lemma collectApps_cfg:
  assumes "projectDir c1 = projectDir c2"
  shows "collectApps ext c1 = collectApps ext c2"
proof (intro ext)
  fix p elems apps st
  show "collectApps ext c1 p elems apps st = collectApps ext c2 p elems apps st"
  proof (induction elems arbitrary: apps st)
    case Nil
    show ?case by simp
  next
    case (Cons a elems)
    note e = error_cfg[OF assms, of ext]
    show ?case
    proof (cases a)
      case None
      show ?thesis by (simp add: None)
    next
      case (Some x)
      show ?thesis
      proof (cases x)
        case (Literal l)
        show ?thesis by (cases l) (simp_all add: Some Literal Cons.IH e)
      qed (simp_all add: Some Cons.IH e)
    qed
  qed
qed

lemma processPath_cfg:
  assumes "projectDir c1 = projectDir c2"
  shows "processPath ext c1 = processPath ext c2"
  by (intro ext, unfold processPath_def error_cfg[OF assms, of ext]) (rule refl)

lemma processInfo_cfg:
  assumes "projectDir c1 = projectDir c2" and "appName c1 = appName c2"
  shows "processInfo ext c1 = processInfo ext c2"
  by (intro ext, unfold processInfo_def error_cfg[OF assms(1), of ext]
      collectApps_cfg[OF assms(1), of ext] processPath_cfg[OF assms(1), of ext] assms(2))
    (rule refl)

lemma processFile_cfg:
  assumes "projectDir c1 = projectDir c2" and "appName c1 = appName c2"
  shows "processFile ext c1 = processFile ext c2"
  by (intro ext, unfold processFile_def error_cfg[OF assms(1), of ext]
      processInfo_cfg[OF assms, of ext])
    (rule refl)

lemma scanFiles_cfg:
  assumes "projectDir c1 = projectDir c2" and "appName c1 = appName c2"
  shows "scanFiles ext c1 files st = scanFiles ext c2 files st"
  by (induction files arbitrary: st) (auto simp: processFile_cfg[OF assms, of ext] split: outcome.splits)

lemma compileRoutes_cfg:
  assumes "caseSensitive c1 = caseSensitive c2"
  shows "compileRoutes ext c1 t acc = compileRoutes ext c2 t acc"
proof (induction t arbitrary: acc)
  case Nil
  show ?case by simp
next
  case (Cons x t)
  obtain q info where x: "x = (q, info)" by (cases x)
  obtain pp es where acc: "acc = (pp, es)" by (cases acc)
  show ?case
  proof (cases "pathToRegexp ext (js_get info ''path'') (caseSensitive c2)")
    case (Inl msg)
    then show ?thesis by (simp add: x acc assms Cons.IH)
  next
    case (Inr re)
    then show ?thesis by (simp add: x acc assms Cons.IH)
  qed
qed

lemma codeConfig_cfg:
  "custom c1 = custom c2 \<Longrightarrow> host c1 = host c2 \<Longrightarrow> port c1 = port c2 \<Longrightarrow>
   backendPort c1 = backendPort c2 \<Longrightarrow> codeConfig c1 = codeConfig c2"
  by (simp add: codeConfig_def)

lemma backendData_pass:
  "backendData (outcome_state (generateEntries ext cfg files st0)) =
     (case scanFiles ext cfg files (st0\<lparr>errors := [], vueComponents := []\<rparr>) of
        Thrown st \<Rightarrow> backendData st
      | Completed st \<Rightarrow>
          if type cfg = ''web'' then
            Some \<lparr>bd_env = env cfg, bd_appName = appName cfg,
                  bd_pagePaths = fst (compileRoutes ext cfg (vueComponents st) ([], errors st)),
                  bd_entry = entryPath ext cfg (backendEntry cfg),
                  bd_conf = codeConfig cfg\<rparr>
          else None)"
proof (cases "scanFiles ext cfg files (st0\<lparr>errors := [], vueComponents := []\<rparr>)")
  case (Thrown st)
  then show ?thesis by (simp add: generateEntries_def)
next
  case (Completed st)
  obtain pp es where r: "compileRoutes ext cfg (vueComponents st) ([], errors st) = (pp, es)"
    by (cases "compileRoutes ext cfg (vueComponents st) ([], errors st)")
  show ?thesis
    by (simp add: generateEntries_def Completed r backendData_def)
qed

text \<open>
  C7. The configuration object handed to the backend template is the same for two
  configurations that agree on \<^verbatim>\<open>custom\<close>, \<^verbatim>\<open>host\<close>, \<^verbatim>\<open>port\<close> and
  \<^verbatim>\<open>backendPort\<close>. When they also agree on what the other inputs of the template are
  computed from (\<^verbatim>\<open>env\<close>, \<^verbatim>\<open>appName\<close>, \<^verbatim>\<open>type\<close>, \<^verbatim>\<open>caseSensitive\<close>,
  \<^verbatim>\<open>backendEntry\<close>, \<^verbatim>\<open>projectDir\<close>), a pass over the same files hands the same data
  to the backend template (or none, for both), whatever the other keys of the two
  configurations hold.
\<close>

theorem backend_data_depends_on_exposed_config:
  "(custom c1 = custom c2 \<and> host c1 = host c2 \<and> port c1 = port c2 \<and>
    backendPort c1 = backendPort c2 \<longrightarrow> codeConfig c1 = codeConfig c2) \<and>
   (custom c1 = custom c2 \<and> host c1 = host c2 \<and> port c1 = port c2 \<and>
    backendPort c1 = backendPort c2 \<and>
    env c1 = env c2 \<and> appName c1 = appName c2 \<and> type c1 = type c2 \<and>
    caseSensitive c1 = caseSensitive c2 \<and> backendEntry c1 = backendEntry c2 \<and>
    projectDir c1 = projectDir c2 \<longrightarrow>
      backendData (outcome_state (generateEntries ext c1 files st0))
        = backendData (outcome_state (generateEntries ext c2 files st0)))"
proof (intro conjI impI)
  assume "custom c1 = custom c2 \<and> host c1 = host c2 \<and> port c1 = port c2 \<and>
    backendPort c1 = backendPort c2"
  then show "codeConfig c1 = codeConfig c2" by (intro codeConfig_cfg) simp_all
next
  assume h: "custom c1 = custom c2 \<and> host c1 = host c2 \<and> port c1 = port c2 \<and>
    backendPort c1 = backendPort c2 \<and>
    env c1 = env c2 \<and> appName c1 = appName c2 \<and> type c1 = type c2 \<and>
    caseSensitive c1 = caseSensitive c2 \<and> backendEntry c1 = backendEntry c2 \<and>
    projectDir c1 = projectDir c2"
  then have conf: "codeConfig c1 = codeConfig c2" by (intro codeConfig_cfg) simp_all
  from h have scan: "scanFiles ext c1 files (st0\<lparr>errors := [], vueComponents := []\<rparr>)
                       = scanFiles ext c2 files (st0\<lparr>errors := [], vueComponents := []\<rparr>)"
    by (intro scanFiles_cfg) simp_all
  from h have routes: "\<And>t acc. compileRoutes ext c1 t acc = compileRoutes ext c2 t acc"
    by (intro compileRoutes_cfg) simp
  from h have pd: "projectDir c1 = projectDir c2" and be: "backendEntry c1 = backendEntry c2"
    by simp_all
  have ent: "entryPath ext c1 (backendEntry c1) = entryPath ext c2 (backendEntry c2)"
    unfolding entryPath_def pd be ..
  from h have same: "env c1 = env c2" "appName c1 = appName c2" "type c1 = type c2"
    by simp_all
  show "backendData (outcome_state (generateEntries ext c1 files st0))
        = backendData (outcome_state (generateEntries ext c2 files st0))"
    unfolding backendData_pass scan routes ent same conf ..
qed


theorem backend_data_depends_on_exposed_config_witness:
  "codeConfig demoConfig = codeConfig demoOtherConfig \<and>
   backendData (outcome_state (generateEntries demoExt demoOtherConfig demoFiles emptyPlugin))
     = backendData demoResult \<and>
   tempDir demoOtherConfig \<noteq> tempDir demoConfig \<and> entry demoOtherConfig \<noteq> entry demoConfig"
proof -
  have h: "custom demoConfig = custom demoOtherConfig \<and> host demoConfig = host demoOtherConfig \<and>
    port demoConfig = port demoOtherConfig \<and> backendPort demoConfig = backendPort demoOtherConfig \<and>
    env demoConfig = env demoOtherConfig \<and> appName demoConfig = appName demoOtherConfig \<and>
    type demoConfig = type demoOtherConfig \<and>
    caseSensitive demoConfig = caseSensitive demoOtherConfig \<and>
    backendEntry demoConfig = backendEntry demoOtherConfig \<and>
    projectDir demoConfig = projectDir demoOtherConfig"
    by (simp add: demoOtherConfig_def config.defs)
  have d: "tempDir demoOtherConfig \<noteq> tempDir demoConfig \<and> entry demoOtherConfig \<noteq> entry demoConfig"
    by (simp add: demoOtherConfig_def demoConfig_def config.defs)
  from backend_data_depends_on_exposed_config
         [of demoConfig demoOtherConfig demoExt demoFiles emptyPlugin] h d demo_pass
  show ?thesis by simp
qed

subsection \<open>The watcher\<close>

lemma regenerate_passes:
  "passes (outcome_state (regenerate ext cfg files c)) = Suc (passes c)"
  by (simp add: regenerate_def split: outcome.splits)

lemma apply_plugin_passes:
  "passes (outcome_state (apply_plugin ext cfg files st0)) = 1"
proof -
  have "passes (outcome_state (regenerate ext cfg files
          \<lparr>plugin_state = st0, watching = False, passes = 0\<rparr>)) = 1"
    by (simp add: regenerate_passes)
  then show ?thesis
    by (cases "regenerate ext cfg files \<lparr>plugin_state = st0, watching = False, passes = 0\<rparr>")
      (simp_all add: apply_plugin_def)
qed

lemma apply_plugin_watching:
  "apply_plugin ext cfg files st0 = Completed c \<Longrightarrow> watching c = (env cfg = ''dev'')"
  by (auto simp: apply_plugin_def split: outcome.splits)

lemma run_not_watching: "\<not> watching c \<Longrightarrow> run ext cfg evs c = Completed c"
proof (induction evs)
  case Nil
  show ?case by simp
next
  case (Cons x evs)
  obtain ev files where x: "x = (ev, files)" by (cases x)
  from Cons show ?case by (simp add: x onEvent_def)
qed

text \<open>
  C8. An unlink event whose path is not a key of the component table leaves the
  controller as it is: no pass is started. When \<^verbatim>\<open>env\<close> is not \<^verbatim>\<open>dev\<close>, no handler is
  registered, every sequence of events leaves the controller as \<^verbatim>\<open>apply\<close> left it, and
  \<^verbatim>\<open>generateEntries\<close> has been called exactly once.
\<close>

theorem untracked_unlink_ignored_and_single_pass_outside_dev:
  "(filePath \<notin> fst ` set (vueComponents (plugin_state c))
      \<longrightarrow> onEvent ext cfg (Unlink filePath) files c = Completed c) \<and>
   (env cfg \<noteq> ''dev''
      \<longrightarrow> passes (outcome_state (runFrom ext cfg evs (apply_plugin ext cfg files0 st0))) = 1 \<and>
          (\<forall>c0. apply_plugin ext cfg files0 st0 = Completed c0
                  \<longrightarrow> \<not> watching c0 \<and> run ext cfg evs c0 = Completed c0))"
proof (intro conjI impI allI)
  assume "filePath \<notin> fst ` set (vueComponents (plugin_state c))"
  then show "onEvent ext cfg (Unlink filePath) files c = Completed c"
    by (simp add: onEvent_def)
next
  assume prod: "env cfg \<noteq> ''dev''"
  show "passes (outcome_state (runFrom ext cfg evs (apply_plugin ext cfg files0 st0))) = 1"
  proof (cases "apply_plugin ext cfg files0 st0")
    case (Thrown c0)
    with apply_plugin_passes[of ext cfg files0 st0] show ?thesis
      by (simp add: runFrom_def)
  next
    case (Completed c0)
    from apply_plugin_watching[OF Completed] prod have "\<not> watching c0" by simp
    then have "run ext cfg evs c0 = Completed c0" by (rule run_not_watching)
    with apply_plugin_passes[of ext cfg files0 st0] Completed show ?thesis
      by (simp add: runFrom_def)
  qed
next
  fix c0
  assume prod: "env cfg \<noteq> ''dev''" and c0: "apply_plugin ext cfg files0 st0 = Completed c0"
  from apply_plugin_watching[OF c0] prod show "\<not> watching c0" by simp
  then show "run ext cfg evs c0 = Completed c0" by (rule run_not_watching)
qed

theorem untracked_unlink_ignored_and_single_pass_outside_dev_witness:
  "onEvent demoExt demoConfig (Unlink ''/p/src/d.vue'') demoFiles
      \<lparr>plugin_state = demoResult, watching = True, passes = 1\<rparr>
     = Completed \<lparr>plugin_state = demoResult, watching = True, passes = 1\<rparr> \<and>
   passes (outcome_state (runFrom demoExt (demoConfig\<lparr>env := ''production''\<rparr>)
      [(Change ''/p/src/a.vue'', demoFiles), (Unlink ''/p/src/a.vue'', [])]
      (apply_plugin demoExt (demoConfig\<lparr>env := ''production''\<rparr>) demoFiles emptyPlugin))) = 1"
proof -
  have a: "''/p/src/d.vue'' \<notin> fst ` set (vueComponents (plugin_state
             \<lparr>plugin_state = demoResult, watching = True, passes = 1\<rparr>))"
    by (simp add: demoResult_def)
  have b: "env (demoConfig\<lparr>env := ''production''\<rparr>) \<noteq> ''dev''" by simp
  from untracked_unlink_ignored_and_single_pass_outside_dev
         [of "''/p/src/d.vue''" "\<lparr>plugin_state = demoResult, watching = True, passes = 1\<rparr>"
             demoExt demoConfig demoFiles]
       untracked_unlink_ignored_and_single_pass_outside_dev
         [of "''/p/src/d.vue''" "\<lparr>plugin_state = demoResult, watching = True, passes = 1\<rparr>"
             demoExt "demoConfig\<lparr>env := ''production''\<rparr>" demoFiles
             "[(Change ''/p/src/a.vue'', demoFiles), (Unlink ''/p/src/a.vue'', [])]"
             demoFiles emptyPlugin]
       a b
  show ?thesis by blast
qed

text \<open>In development mode the same events do start a pass.\<close>

lemma dev_events_regenerate:
  assumes "watching c"
  shows "onEvent ext cfg (Add filePath) files c = regenerate ext cfg files c"
    and "onEvent ext cfg (Change filePath) files c = regenerate ext cfg files c"
    and "filePath \<in> fst ` set (vueComponents (plugin_state c))
           \<Longrightarrow> onEvent ext cfg (Unlink filePath) files c = regenerate ext cfg files c"
  using assms by (simp_all add: onEvent_def)

subsection \<open>When a pass completes\<close>

text \<open>
  The only statement of the scan that can throw is the read of \<^verbatim>\<open>appElem.type\<close>: a
  pass completes exactly when no file has a hole in its \<^verbatim>\<open>info.apps\<close>.
\<close>

lemma processFile_hole_throws:
  assumes "hasHole ext c"
  shows "\<exists>st'. processFile ext cfg p c st = Thrown st'"
proof -
  from assms obtain elements where
    apps: "infoApps ext c = Some (ArrayExpression elements)" and hole: "None \<in> set elements"
    by (auto simp: hasHole_def split: option.splits expr.splits)
  from infoApps_Some_props[OF apps] obtain props where
    props: "infoProps ext c = Some props"
    and ap: "findProp ''apps'' props = Some (ArrayExpression elements)"
    by blast
  from processInfo_hole[OF ap hole] show ?thesis
    by (simp add: processFile_info[OF props])
qed

lemma processFile_completes:
  assumes "\<not> hasHole ext c"
  shows "\<exists>st'. processFile ext cfg p c st = Completed st'"
proof (cases "infoProps ext c")
  case None
  from processFile_without_info[OF None, of cfg p st] show ?thesis by blast
next
  case (Some props)
  define st1 where "st1 = st\<lparr>vueComponents := AList.update p [] (vueComponents st)\<rparr>"
  have st1: "map_of (vueComponents st1) p = Some []" by (simp add: st1_def)
  have path: "\<exists>st'. processPath ext cfg p props s = Completed st'"
    if "map_of (vueComponents s) p = Some []" for s
    using processPath_keeps[OF that, of ext cfg props] by blast
  have "\<exists>st'. processInfo ext cfg p props st1 = Completed st'"
  proof (cases "findProp ''apps'' props")
    case None
    with path[OF st1] show ?thesis by (simp add: processInfo_def)
  next
    case found: (Some a)
    show ?thesis
    proof (cases a)
      case (ArrayExpression elements)
      from assms have holes: "None \<notin> set elements"
        by (simp add: hasHole_def infoApps_props[OF Some] found ArrayExpression)
      show ?thesis
      proof (cases "elements = []")
        case True
        with path[OF st1] show ?thesis by (simp add: processInfo_def found ArrayExpression)
      next
        case False
        define st2 where "st2 = st1\<lparr>errors := errors st1 @
               replicate (length (filter (\<lambda>e. \<not> isStringLiteral e) elements))
                 (FileError (path_relative ext (projectDir cfg) p) msgAppsItems)\<rparr>"
        have "map_of (vueComponents st2) p = Some []" using st1 by (simp add: st2_def)
        from path[OF this]
          processInfo_apps[OF found[unfolded ArrayExpression] False holes, of ext cfg p st1]
        show ?thesis by (auto simp: st2_def)
      qed
    qed (simp_all add: processInfo_def found)
  qed
  then show ?thesis by (simp add: processFile_info[OF Some] st1_def)
qed

lemma scanFiles_completes_iff:
  "(\<exists>st'. scanFiles ext cfg files st = Completed st') \<longleftrightarrow>
     (\<forall>f \<in> set files. \<not> hasHole ext (snd f))"
proof (induction files arbitrary: st)
  case Nil
  show ?case by simp
next
  case (Cons f files)
  obtain p c where f: "f = (p, c)" by (cases f)
  show ?case
  proof (cases "hasHole ext c")
    case True
    from processFile_hole_throws[OF True, of cfg p st] obtain st' where
      "processFile ext cfg p c st = Thrown st'" by blast
    with True show ?thesis by (simp add: f)
  next
    case False
    from processFile_completes[OF False, of cfg p st] obtain st' where
      "processFile ext cfg p c st = Completed st'" by blast
    with False Cons.IH[of st'] show ?thesis by (simp add: f)
  qed
qed

lemma generateEntries_completes_iff:
  "(\<exists>r. generateEntries ext cfg files st0 = Completed r) \<longleftrightarrow>
     (\<forall>f \<in> set files. \<not> hasHole ext (snd f))"
proof -
  have "(\<exists>r. generateEntries ext cfg files st0 = Completed r) \<longleftrightarrow>
        (\<exists>st'. scanFiles ext cfg files (st0\<lparr>errors := [], vueComponents := []\<rparr>) = Completed st')"
    by (cases "scanFiles ext cfg files (st0\<lparr>errors := [], vueComponents := []\<rparr>)")
      (simp_all add: generateEntries_def Let_def split: prod.splits)
  then show ?thesis by (simp add: scanFiles_completes_iff)
qed

section \<open>The backend plugin\<close>

lemma writeAssets_append:
  "writeAssets write join out (xs @ ys) st = writeAssets write join out ys (writeAssets write join out xs st)"
proof (induction xs arbitrary: st)
  case Nil
  show ?case by simp
next
  case (Cons a xs)
  obtain p src where a: "a = (p, src)" by (cases a)
  obtain errs fs where st: "st = (errs, fs)" by (cases st)
  show ?case unfolding a st
    by (cases src) (simp_all add: Cons.IH split: prod.splits option.splits)
qed

lemma writeAssets_errors_grow:
  "\<exists>new. fst (writeAssets write join out assets (errs, fs)) = errs @ new"
proof (induction assets arbitrary: errs fs)
  case Nil
  show ?case by simp
next
  case (Cons a assets)
  obtain p src where a: "a = (p, src)" by (cases a)
  show ?case
  proof (cases src)
    case (Inl e)
    from Cons.IH[of "errs @ [e]" fs] show ?thesis by (auto simp: a Inl)
  next
    case (Inr body)
    obtain fs' r where w: "write fs (join out p) body = (fs', r)" by (cases "write fs (join out p) body")
    show ?thesis
    proof (cases r)
      case None
      from Cons.IH[of errs fs'] show ?thesis by (simp add: a Inr w None)
    next
      case (Some e)
      from Cons.IH[of "errs @ [e]" fs'] show ?thesis by (auto simp: a Inr w Some)
    qed
  qed
qed

text \<open>
  C9. In the handler of the \<^verbatim>\<open>done\<close> hook of the backend plugin: when the
  compilation's error list is not empty, nothing is written and the file system and the
  error list are returned as they were. When the list is empty and the write of one asset
  fails with \<open>e\<close> (after the assets \<open>pre\<close> left the errors \<open>errs1\<close>), the handler goes
  on with the remaining assets \<open>post\<close> from the error list \<open>errs1 @ [e]\<close>, so \<open>e\<close> is in
  the final error list; the same holds when the asset's \<^verbatim>\<open>source()\<close> throws. The handler
  returns a state in every case: nothing is thrown.
\<close>

theorem backendDone_guard_and_write_failure:
  "(errs \<noteq> [] \<longrightarrow> backendDone write join out assets (errs, fs) = (errs, fs)) \<and>
   (writeAssets write join out pre ([], fs) = (errs1, fs1) \<and>
    write fs1 (join out assetPath) text = (fs2, Some e) \<longrightarrow>
      backendDone write join out (pre @ (assetPath, Inr text) # post) ([], fs)
        = writeAssets write join out post (errs1 @ [e], fs2) \<and>
      (\<exists>later. fst (backendDone write join out (pre @ (assetPath, Inr text) # post) ([], fs))
                 = errs1 @ e # later)) \<and>
   (writeAssets write join out pre ([], fs) = (errs1, fs1) \<longrightarrow>
      backendDone write join out (pre @ (assetPath, Inl e) # post) ([], fs)
        = writeAssets write join out post (errs1 @ [e], fs1))"
proof (intro conjI impI)
  assume "errs \<noteq> []"
  then show "backendDone write join out assets (errs, fs) = (errs, fs)"
    by (simp add: backendDone_def)
next
  assume h: "writeAssets write join out pre ([], fs) = (errs1, fs1) \<and>
    write fs1 (join out assetPath) text = (fs2, Some e)"
  then show eq: "backendDone write join out (pre @ (assetPath, Inr text) # post) ([], fs)
        = writeAssets write join out post (errs1 @ [e], fs2)"
    by (simp add: backendDone_def writeAssets_append)
  from writeAssets_errors_grow[of "write" join out post "errs1 @ [e]" fs2]
  show "\<exists>later. fst (backendDone write join out (pre @ (assetPath, Inr text) # post) ([], fs))
                 = errs1 @ e # later"
    unfolding eq by auto
next
  assume "writeAssets write join out pre ([], fs) = (errs1, fs1)"
  then show "backendDone write join out (pre @ (assetPath, Inl e) # post) ([], fs)
        = writeAssets write join out post (errs1 @ [e], fs1)"
    by (simp add: backendDone_def writeAssets_append)
qed

theorem backendDone_guard_and_write_failure_witness:
  "backendDone demoWrite demoJoin2 ''/out'' [(''a.js'', Inr ''A'')] ([''E0''], []) = ([''E0''], []) \<and>
   backendDone demoWrite demoJoin2 ''/out''
      [(''a.js'', Inr ''A''), (''bad.js'', Inr ''B''), (''c.js'', Inr ''C'')] ([], [])
     = ([''EACCES''], [(''/out/a.js'', ''A''), (''/out/c.js'', ''C'')]) \<and>
   backendDone demoWrite demoJoin2 ''/out''
      [(''a.js'', Inr ''A''), (''s.js'', Inl ''ESRC''), (''c.js'', Inr ''C'')] ([], [])
     = ([''ESRC''], [(''/out/a.js'', ''A''), (''/out/c.js'', ''C'')])"
  using backendDone_guard_and_write_failure
    [of "[''E0'']" demoWrite demoJoin2 "''/out''" "[(''a.js'', Inr ''A'')]" "[]"
        "[(''a.js'', Inr ''A'')]" "[]" "[(''/out/a.js'', ''A'')]" "''bad.js''" "''B''"
        "[(''/out/a.js'', ''A'')]" "''EACCES''" "[(''c.js'', Inr ''C'')]"]
  by (simp add: demoWrite_def demoJoin2_def backendDone_def)

end
